theory Spec2Isabelle
  imports Main "HOL-Library.AList"
begin

section \<open>Values, messages and workflow state\<close>

text \<open>
  Property values of plain objects. Numbers are the integers that the code uses for
  \<open>$version\<close>; fractions and NaN do not occur in the modelled code paths.
\<close>

datatype jsval = VUndefined | VNull | VBool bool | VNum int | VStr string

type_synonym obj = "string \<rightharpoonup> jsval"

text \<open>
  A message is an object that may carry the discriminator \<open>$name\<close>; an external message
  has none. \<open>MessageAttributes\<close> is the metadata passed along with it.
\<close>

record Message =
  msg_name :: "string option"
  msg_body :: obj

record MessageAttributes =
  correlationId :: "string option"
  attributes :: obj
  stickyAttributes :: obj

text \<open>
  A class constructor of a message: the identity of the class and the \<open>$name\<close> that
  \<open>new messageType()\<close> carries.
\<close>

datatype MessageType = MessageType (mt_ref: nat) (mt_name: string)

datatype WorkflowStatus = Running | Complete | Discard

text \<open>
  Modelled from the spec: the class \<open>WorkflowState\<close> and the enum \<open>WorkflowStatus\<close>
  (workflow-state.ts is not among the sources). A workflow state has the four typed system
  properties \<open>$workflowId\<close>, \<open>$name\<close>, \<open>$version\<close>, \<open>$status\<close>, and the user-defined
  properties of the concrete state class.
  \<open>StateDelta\<close> is \<open>Partial<WorkflowState>\<close>, the value a step returns: every property
  is either set or absent.
\<close>

record WorkflowState =
  s_workflowId :: string
  s_name :: string
  s_version :: int
  s_status :: WorkflowStatus
  s_fields :: obj

record StateDelta =
  d_workflowId :: "string option"
  d_name :: "string option"
  d_version :: "int option"
  d_status :: "WorkflowStatus option"
  d_fields :: obj

text \<open>
  A class constructor of a workflow state: its class name and the instance that
  \<open>new stateType()\<close> yields.
\<close>

record StateType =
  st_className :: string
  st_new :: WorkflowState

text \<open>
  The exceptions. \<open>TypeError\<close> is the one that the runtime throws when a property of
  \<open>undefined\<close> is read, when a value that is no function is called, or when \<open>undefined\<close>
  is spread; \<open>DatabaseError\<close> is any error that the database answers a statement with.
\<close>

datatype error =
    HandlerAlreadyRegistered string
  | WorkflowStateNotInitialized string
  | WorkflowDataNotFound string string int
  | DatabaseError
  | Error string
  | TypeError

text \<open>
  A workflow step \<open>({message, attributes, state}) => Partial<State> | void\<close>; it may throw.
\<close>

type_synonym WhenHandler =
  "Message \<Rightarrow> MessageAttributes \<Rightarrow> WorkflowState \<Rightarrow> error + StateDelta option"

text \<open>
  Modelled from the spec: \<open>MessageWorkflowMapping\<close> (message-workflow-mapping.ts is not among
  the sources). \<open>lookup\<close> extracts the key, a string or \<open>undefined\<close>, from the message and
  its attributes; \<open>mapsTo\<close> names the property of the workflow state that must equal it.
\<close>

record MessageWorkflowMapping =
  lookup :: "Message \<Rightarrow> MessageAttributes \<Rightarrow> string option"
  mapsTo :: string

text \<open>
  Handlers are function objects, compared by reference (\<open>===\<close>): each carries the
  reference it was allocated at. \<open>FunctionHandler\<close> is a handler of the application, with its
  function name. \<open>StartedByFn\<close> and \<open>HandlesFn\<close> are the two arrow functions that the
  workflow registry creates, with the variables they capture.
\<close>

datatype handler =
    FunctionHandler nat string
  | StartedByFn nat StateType WhenHandler
  | HandlesFn nat string StateType MessageWorkflowMapping WhenHandler

fun handler_name :: "handler \<Rightarrow> string" where
  "handler_name (FunctionHandler _ n) = n"
| "handler_name (StartedByFn _ _ _) = []"
| "handler_name (HandlesFn _ _ _ _ _) = []"

section \<open>Plain objects used as dictionaries\<close>

text \<open>
  The handler registry and the in-memory persistence keep their entries in a plain object
  \<open>{}\<close>. Reading \<open>object[key]\<close> and testing \<open>key in object\<close> also find the members that the
  object inherits from \<open>Object.prototype\<close>; these are their names. An inherited member is a
  function, or for \<open>__proto__\<close> the prototype object itself: it is truthy, and it has no
  property \<open>handlers\<close>, \<open>filter\<close> or \<open>find\<close>.
\<close>

definition objectPrototypeNames :: "string list" where
  "objectPrototypeNames =
     [''constructor'', ''__defineGetter__'', ''__defineSetter__'', ''hasOwnProperty'',
      ''__lookupGetter__'', ''__lookupSetter__'', ''isPrototypeOf'', ''propertyIsEnumerable'',
      ''toString'', ''valueOf'', ''__proto__'', ''toLocaleString'']"

section \<open>Handler registry\<close>

text \<open>
  \<open>DefaultHandlerRegistry\<close>. The own properties of the object \<open>registry\<close> are an association
  list in insertion order.
\<close>

record RegisteredHandlers =
  rh_messageType :: MessageType
  rh_handlers :: "handler list"

record HandlerResolver =
  hr_handler :: handler
  hr_messageType :: "MessageType option"
  hr_resolver :: "Message \<Rightarrow> bool"
  hr_topicIdentifier :: "string option"

record HandlerRegistry =
  registry :: "(string \<times> RegisteredHandlers) list"
  unhandledMessages :: "string list"
  handlerResolvers :: "HandlerResolver list"

definition newHandlerRegistry :: HandlerRegistry where
  "newHandlerRegistry = \<lparr>registry = [], unhandledMessages = [], handlerResolvers = []\<rparr>"

text \<open>
  \<open>this.registry[messageName]\<close>: an entry of the registry, a member inherited from
  \<open>Object.prototype\<close>, or \<open>undefined\<close>.
\<close>

datatype RegistryValue = Own RegisteredHandlers | Inherited | Missing

definition readRegistry :: "HandlerRegistry \<Rightarrow> string \<Rightarrow> RegistryValue" where
  "readRegistry r messageName =
     (case map_of (registry r) messageName of
        Some e \<Rightarrow> Own e
      | None \<Rightarrow> if messageName \<in> set objectPrototypeNames then Inherited else Missing)"

text \<open>The handler list of the entry stored under a name; empty when there is no entry.\<close>

definition handlersOf :: "HandlerRegistry \<Rightarrow> string \<Rightarrow> handler list" where
  "handlersOf r n = (case map_of (registry r) n of None \<Rightarrow> [] | Some e \<Rightarrow> rh_handlers e)"

subsection \<open>The variant of handler-registry.ts\<close>

text \<open>
  \<open>if (!this.registry[messageName]) this.registry[messageName] = {messageType, handlers: []}\<close>:
  an inherited member is truthy, so that no entry is made for its name.
\<close>

definition ensureEntry :: "MessageType \<Rightarrow> HandlerRegistry \<Rightarrow> HandlerRegistry" where
  "ensureEntry messageType r =
     (case readRegistry r (mt_name messageType) of
        Missing \<Rightarrow> r\<lparr>registry := AList.update (mt_name messageType)
                       \<lparr>rh_messageType = messageType, rh_handlers = []\<rparr> (registry r)\<rparr>
      | Inherited \<Rightarrow> r
      | Own _ \<Rightarrow> r)"

definition pushHandler :: "string \<Rightarrow> handler \<Rightarrow> HandlerRegistry \<Rightarrow> HandlerRegistry" where
  "pushHandler messageName h r =
     (case map_of (registry r) messageName of
        None \<Rightarrow> r
      | Some e \<Rightarrow> r\<lparr>registry :=
          AList.update messageName (e\<lparr>rh_handlers := rh_handlers e @ [h]\<rparr>) (registry r)\<rparr>)"

text \<open>
  The duplicate check and the push, shared by the two variants. On an inherited member
  \<open>this.registry[messageName].handlers\<close> is \<open>undefined\<close>, and calling \<open>some\<close> on it throws.
\<close>

definition checkAndPush ::
  "string \<Rightarrow> handler \<Rightarrow> HandlerRegistry \<Rightarrow> (error + unit) \<times> HandlerRegistry" where
  "checkAndPush messageName h r1 =
     (case readRegistry r1 messageName of
        Own e \<Rightarrow>
          (let handlerNameAlreadyRegistered = (h \<in> set (rh_handlers e))
           in if handlerNameAlreadyRegistered
              then (Inl (HandlerAlreadyRegistered (handler_name h)), r1)
              else (Inr (), pushHandler messageName h r1))
      | Inherited \<Rightarrow> (Inl TypeError, r1)
      | Missing \<Rightarrow> (Inl TypeError, r1))"

definition register ::
  "MessageType \<Rightarrow> handler \<Rightarrow> (Message \<Rightarrow> bool) option \<Rightarrow> string option \<Rightarrow>
   HandlerRegistry \<Rightarrow> (error + unit) \<times> HandlerRegistry" where
  "register messageType h resolveWith topicIdentifier r =
     (let messageName = mt_name messageType;
          r1 = ensureEntry messageType r
      in checkAndPush messageName h r1)"

text \<open>
  \<open>get(messageName)\<close>. For the name of an inherited member \<open>messageName in this.registry\<close>
  holds, and the method returns \<open>this.registry[messageName].handlers\<close>, which is \<open>undefined\<close>:
  the result \<open>None\<close>.
\<close>

definition get ::
  "string \<Rightarrow> HandlerRegistry \<Rightarrow> handler list option \<times> HandlerRegistry" where
  "get messageName r =
     (case readRegistry r messageName of
        Missing \<Rightarrow>
          (Some [], if messageName \<in> set (unhandledMessages r) then r
                    else r\<lparr>unhandledMessages := unhandledMessages r @ [messageName]\<rparr>)
      | Inherited \<Rightarrow> (None, r)
      | Own e \<Rightarrow> (Some (rh_handlers e), r))"

definition reset :: "HandlerRegistry \<Rightarrow> HandlerRegistry" where
  "reset r = r\<lparr>registry := []\<rparr>"

text \<open>
  Registering a list of requests \<open>(messageType, handler, resolveWith, topicIdentifier)\<close> in
  order; the first exception ends the run.
\<close>

type_synonym registration =
  "MessageType \<times> handler \<times> (Message \<Rightarrow> bool) option \<times> string option"

fun registerAll ::
  "registration list \<Rightarrow> HandlerRegistry \<Rightarrow> (error + unit) \<times> HandlerRegistry" where
  "registerAll [] r = (Inr (), r)"
| "registerAll ((mt, h, rw, ti) # qs) r =
     (case register mt h rw ti r of
        (Inl e, r') \<Rightarrow> (Inl e, r')
      | (Inr _, r') \<Rightarrow> registerAll qs r')"

text \<open>Whether a request passes a \<open>resolveWith\<close> predicate.\<close>

fun resolveWithOf :: "registration \<Rightarrow> (Message \<Rightarrow> bool) option" where
  "resolveWithOf (mt, h, rw, ti) = rw"

subsection \<open>The variant of logger.ts, which records resolvers\<close>

definition pushResolver ::
  "MessageType \<Rightarrow> handler \<Rightarrow> (Message \<Rightarrow> bool) option \<Rightarrow> string option \<Rightarrow>
   HandlerRegistry \<Rightarrow> HandlerRegistry" where
  "pushResolver messageType h resolveWith topicIdentifier r =
     (case resolveWith of
        None \<Rightarrow> r
      | Some p \<Rightarrow> r\<lparr>handlerResolvers := handlerResolvers r @
          [\<lparr>hr_handler = h, hr_messageType = Some messageType, hr_resolver = p,
            hr_topicIdentifier = topicIdentifier\<rparr>]\<rparr>)"

definition register_rw ::
  "MessageType \<Rightarrow> handler \<Rightarrow> (Message \<Rightarrow> bool) option \<Rightarrow> string option \<Rightarrow>
   HandlerRegistry \<Rightarrow> (error + unit) \<times> HandlerRegistry" where
  "register_rw messageType h resolveWith topicIdentifier r =
     (let r0 = pushResolver messageType h resolveWith topicIdentifier r;
          messageName = mt_name messageType;
          r1 = ensureEntry messageType r0
      in checkAndPush messageName h r1)"

definition resolveCustomHandlers :: "Message \<Rightarrow> HandlerRegistry \<Rightarrow> handler list" where
  "resolveCustomHandlers message r =
     map hr_handler (filter (\<lambda>handlerResolver. hr_resolver handlerResolver message)
       (handlerResolvers r))"

text \<open>
  \<open>!messageName\<close>: the name is \<open>undefined\<close> or the empty string.
\<close>

fun falsyName :: "string option \<Rightarrow> bool" where
  "falsyName None = True"
| "falsyName (Some n) = (n = [])"

text \<open>\<open>messageName in this.registry\<close>, for a name that is not \<open>undefined\<close>.\<close>

fun inRegistry :: "string option \<Rightarrow> HandlerRegistry \<Rightarrow> bool" where
  "inRegistry None r = False"
| "inRegistry (Some n) r = (readRegistry r n \<noteq> Missing)"

text \<open>
  \<open>messageName && this.registry[messageName] ? this.registry[messageName].handlers : []\<close>;
  \<open>None\<close> is \<open>undefined\<close>, the \<open>handlers\<close> of an inherited member.
\<close>

definition messageHandlersOf :: "string option \<Rightarrow> HandlerRegistry \<Rightarrow> handler list option" where
  "messageHandlersOf messageName r =
     (case messageName of
        None \<Rightarrow> Some []
      | Some n \<Rightarrow>
          if falsyName messageName then Some []
          else (case readRegistry r n of
                  Own e \<Rightarrow> Some (rh_handlers e)
                | Inherited \<Rightarrow> None
                | Missing \<Rightarrow> Some []))"

text \<open>
  \<open>get(message)\<close>. Spreading \<open>undefined\<close> into the result array throws.
\<close>

definition get_rw ::
  "Message \<Rightarrow> HandlerRegistry \<Rightarrow> (error + handler list) \<times> HandlerRegistry" where
  "get_rw message r =
     (let customHandlers = resolveCustomHandlers message r;
          messageName = msg_name message;
          noHandlersForMessage =
            (customHandlers = [] \<and> (falsyName messageName \<or> \<not> inRegistry messageName r))
      in if noHandlersForMessage
         then (Inr [],
           (case messageName of
              None \<Rightarrow> r
            | Some n \<Rightarrow>
                if \<not> falsyName messageName \<and> n \<notin> set (unhandledMessages r)
                then r\<lparr>unhandledMessages := unhandledMessages r @ [n]\<rparr>
                else r))
         else
           (case messageHandlersOf messageName r of
              None \<Rightarrow> (Inl TypeError, r)
            | Some messageHandlers \<Rightarrow> (Inr (messageHandlers @ customHandlers), r)))"

definition reset_rw :: "HandlerRegistry \<Rightarrow> HandlerRegistry" where
  "reset_rw r = r\<lparr>registry := []\<rparr>"

text \<open>The same run of requests on this variant.\<close>

fun registerAll_rw ::
  "registration list \<Rightarrow> HandlerRegistry \<Rightarrow> (error + unit) \<times> HandlerRegistry" where
  "registerAll_rw [] r = (Inr (), r)"
| "registerAll_rw ((mt, h, rw, ti) # qs) r =
     (case register_rw mt h rw ti r of
        (Inl e, r') \<Rightarrow> (Inl e, r')
      | (Inr _, r') \<Rightarrow> registerAll_rw qs r')"

text \<open>Whether the optional \<open>resolveWith\<close> predicate of a request accepts a message.\<close>

fun accepts :: "(Message \<Rightarrow> bool) option \<Rightarrow> Message \<Rightarrow> bool" where
  "accepts None m = False"
| "accepts (Some p) m = p m"

text \<open>
  A message whose \<open>$name\<close> makes \<open>get\<close> read a member inherited from \<open>Object.prototype\<close>.
\<close>

definition readsInherited :: "Message \<Rightarrow> HandlerRegistry \<Rightarrow> bool" where
  "readsInherited m r =
     (case msg_name m of
        None \<Rightarrow> False
      | Some n \<Rightarrow> n \<noteq> [] \<and> readRegistry r n = Inherited)"

text \<open>The registry states that the operations of each variant can produce.\<close>

inductive reachable :: "HandlerRegistry \<Rightarrow> bool" where
  reachable_new: "reachable newHandlerRegistry"
| reachable_register: "reachable r \<Longrightarrow> reachable (snd (register mt h rw ti r))"
| reachable_get: "reachable r \<Longrightarrow> reachable (snd (get n r))"
| reachable_reset: "reachable r \<Longrightarrow> reachable (reset r)"

inductive reachable_rw :: "HandlerRegistry \<Rightarrow> bool" where
  reachable_rw_new: "reachable_rw newHandlerRegistry"
| reachable_rw_register: "reachable_rw r \<Longrightarrow> reachable_rw (snd (register_rw mt h rw ti r))"
| reachable_rw_get: "reachable_rw r \<Longrightarrow> reachable_rw (snd (get_rw msg r))"
| reachable_rw_reset: "reachable_rw r \<Longrightarrow> reachable_rw (reset_rw r)"


section \<open>Workflow state as an object\<close>

text \<open>
  Modelled from the spec: the string values of the enum \<open>WorkflowStatus\<close>, whose declaration
  is not among the sources. \<open>'running'\<close> is the value that the SQL of the Postgres
  persistence compares \<open>$status\<close> with; the other two are named alike.
\<close>

fun statusValue :: "WorkflowStatus \<Rightarrow> string" where
  "statusValue Running = ''running''"
| "statusValue Complete = ''complete''"
| "statusValue Discard = ''discard''"

text \<open>\<open>state[key]\<close>: reading a property of a workflow state by its name.\<close>

definition getProp :: "WorkflowState \<Rightarrow> string \<Rightarrow> jsval option" where
  "getProp s k =
     (if k = ''$workflowId'' then Some (VStr (s_workflowId s))
      else if k = ''$name'' then Some (VStr (s_name s))
      else if k = ''$version'' then Some (VNum (s_version s))
      else if k = ''$status'' then Some (VStr (statusValue (s_status s)))
      else s_fields s k)"

text \<open>
  \<open>Object.assign(target, source)\<close> and the object spread: every own property of the source
  overwrites the target's. \<open>assignState\<close> has a whole state as its source, \<open>assignDelta\<close>
  a partial one.
\<close>

definition assignState :: "WorkflowState \<Rightarrow> WorkflowState \<Rightarrow> WorkflowState" where
  "assignState target source = source\<lparr>s_fields := s_fields target ++ s_fields source\<rparr>"

definition assignDelta :: "WorkflowState \<Rightarrow> StateDelta \<Rightarrow> WorkflowState" where
  "assignDelta target d =
     \<lparr>s_workflowId = (case d_workflowId d of None \<Rightarrow> s_workflowId target | Some v \<Rightarrow> v),
      s_name = (case d_name d of None \<Rightarrow> s_name target | Some v \<Rightarrow> v),
      s_version = (case d_version d of None \<Rightarrow> s_version target | Some v \<Rightarrow> v),
      s_status = (case d_status d of None \<Rightarrow> s_status target | Some v \<Rightarrow> v),
      s_fields = s_fields target ++ d_fields d\<rparr>"

section \<open>In-memory persistence\<close>

text \<open>
  \<open>WorkflowStorage\<close>, the plain object \<open>this.workflowState\<close>: its own properties, the rows
  of each workflow state name, and its prototype. The prototype is \<open>Object.prototype\<close>
  (\<open>None\<close>) until \<open>this.workflowState['__proto__'] = []\<close> is executed for a state type named
  \<open>__proto__\<close>; that assignment makes the new array the prototype of the object.
\<close>

record WorkflowStorage =
  ws_own :: "(string \<times> WorkflowState list) list"
  ws_proto :: "WorkflowState list option"

definition newWorkflowStorage :: WorkflowStorage where
  "newWorkflowStorage = \<lparr>ws_own = [], ws_proto = None\<rparr>"

text \<open>
  \<open>this.workflowState[name]\<close>: the rows of the name, another truthy value, or a falsy one
  (\<open>undefined\<close>, or the length 0 of an empty array).
\<close>

datatype StorageValue = Rows "WorkflowState list" | Truthy | Falsy

text \<open>The decimal name of an array index.\<close>

fun showNat :: "nat \<Rightarrow> string" where
  "showNat n =
     (if n < 10 then [char_of (48 + n)]
      else showNat (n div 10) @ [char_of (48 + n mod 10)])"

declare showNat.simps [simp del]

text \<open>
  What the object inherits from an array that has become its prototype: the array itself
  under \<open>__proto__\<close>, its length, its elements under their indices, and the members of
  \<open>Array.prototype\<close> and \<open>Object.prototype\<close>. The names that \<open>Array.prototype\<close> defines
  depend on the runtime and are the parameter \<open>inArrayPrototype\<close>.
\<close>

definition inheritedFromArray ::
  "(string \<Rightarrow> bool) \<Rightarrow> WorkflowState list \<Rightarrow> string \<Rightarrow> StorageValue" where
  "inheritedFromArray inArrayPrototype rows name =
     (if name = ''__proto__'' then Rows rows
      else if name = ''length'' then (if rows = [] then Falsy else Truthy)
      else if name \<in> set (map showNat [0..<length rows]) then Truthy
      else if inArrayPrototype name \<or> name \<in> set objectPrototypeNames then Truthy
      else Falsy)"

definition readStorage ::
  "(string \<Rightarrow> bool) \<Rightarrow> WorkflowStorage \<Rightarrow> string \<Rightarrow> StorageValue" where
  "readStorage inArrayPrototype store name =
     (case map_of (ws_own store) name of
        Some rows \<Rightarrow> Rows rows
      | None \<Rightarrow>
          (case ws_proto store of
             None \<Rightarrow> if name \<in> set objectPrototypeNames then Truthy else Falsy
           | Some rows \<Rightarrow> inheritedFromArray inArrayPrototype rows name))"

text \<open>
  The array read under a name is changed in place: it is the own property of that name, or
  else the prototype.
\<close>

definition writeRows :: "WorkflowStorage \<Rightarrow> string \<Rightarrow> WorkflowState list \<Rightarrow> WorkflowStorage" where
  "writeRows store name rows =
     (case map_of (ws_own store) name of
        Some _ \<Rightarrow> store\<lparr>ws_own := AList.update name rows (ws_own store)\<rparr>
      | None \<Rightarrow> store\<lparr>ws_proto := Some rows\<rparr>)"

definition initializeWorkflow ::
  "StateType \<Rightarrow> MessageWorkflowMapping list \<Rightarrow> WorkflowStorage \<Rightarrow> error + WorkflowStorage" where
  "initializeWorkflow workflowStateConstructor mappings store =
     (let name = s_name (st_new workflowStateConstructor)
      in if name = ''__proto__'' \<and> map_of (ws_own store) name = None
         then Inr (store\<lparr>ws_proto := Some []\<rparr>)
         else Inr (store\<lparr>ws_own := AList.update name [] (ws_own store)\<rparr>))"

text \<open>\<open>!filterValue\<close>: the key is \<open>undefined\<close> or the empty string.\<close>

fun falsy :: "string option \<Rightarrow> bool" where
  "falsy None = True"
| "falsy (Some k) = (k = [])"

text \<open>\<open>data[mapsTo] === filterValue\<close>, for the string or \<open>undefined\<close> that \<open>lookup\<close> gave.\<close>

fun strictEquals :: "jsval option \<Rightarrow> string option \<Rightarrow> bool" where
  "strictEquals (Some (VStr a)) (Some b) = (a = b)"
| "strictEquals None None = True"
| "strictEquals (Some VUndefined) None = True"
| "strictEquals _ _ = False"

text \<open>
  \<open>getWorkflowState\<close>. A falsy value under the name is the case \<open>!workflowState\<close>; a truthy
  value that is no array has no \<open>filter\<close>, and calling it throws.
\<close>

definition getWorkflowState ::
  "(string \<Rightarrow> bool) \<Rightarrow> StateType \<Rightarrow> MessageWorkflowMapping \<Rightarrow> Message \<Rightarrow> MessageAttributes \<Rightarrow>
   bool option \<Rightarrow> WorkflowStorage \<Rightarrow> error + WorkflowState list" where
  "getWorkflowState inArrayPrototype workflowStateConstructor messageMap message context
       includeCompleted store =
     (let filterValue = lookup messageMap message context
      in if falsy filterValue then Inr []
         else
           (case readStorage inArrayPrototype store (s_name (st_new workflowStateConstructor)) of
              Falsy \<Rightarrow> Inl (WorkflowStateNotInitialized ''Workflow data not initialized'')
            | Truthy \<Rightarrow> Inl TypeError
            | Rows workflowState \<Rightarrow>
                Inr (filter (\<lambda>data.
                       (includeCompleted = Some True \<or> s_status data = Running)
                       \<and> strictEquals (getProp data (mapsTo messageMap)) filterValue)
                     workflowState)))"

text \<open>
  \<open>existingWorkflowState.find(...)\<close> followed by \<open>Object.assign(existingItem, workflowState)\<close>:
  the first row with the same \<open>$workflowId\<close> is overwritten in place; \<open>None\<close> when there is
  no such row. The stored objects are the ones that the callers built and are not frozen, so
  that \<open>Object.assign\<close> does not throw.
\<close>

fun assignExisting :: "WorkflowState \<Rightarrow> WorkflowState list \<Rightarrow> WorkflowState list option" where
  "assignExisting workflowState [] = None"
| "assignExisting workflowState (d # ds) =
     (if s_workflowId d = s_workflowId workflowState
      then Some (assignState d workflowState # ds)
      else map_option ((#) d) (assignExisting workflowState ds))"

text \<open>
  \<open>saveWorkflowState\<close>. A value under the name that is no array has no \<open>find\<close>: reading it
  from \<open>undefined\<close> or calling it throws.
\<close>

definition saveWorkflowState ::
  "(string \<Rightarrow> bool) \<Rightarrow> WorkflowState \<Rightarrow> WorkflowStorage \<Rightarrow> error + WorkflowStorage" where
  "saveWorkflowState inArrayPrototype workflowState store =
     (let workflowStateName = s_name workflowState
      in case readStorage inArrayPrototype store workflowStateName of
           Falsy \<Rightarrow> Inl TypeError
         | Truthy \<Rightarrow> Inl TypeError
         | Rows existingWorkflowState \<Rightarrow>
             (case assignExisting workflowState existingWorkflowState of
                Some updated \<Rightarrow> Inr (writeRows store workflowStateName updated)
              | None \<Rightarrow>
                  Inr (writeRows store workflowStateName
                        (existingWorkflowState @ [workflowState]))))"

text \<open>
  A run of calls on the in-memory persistence, from the storage before to the storage after;
  a call that throws leaves the storage as it was.
\<close>

datatype PersistenceCall =
    InitializeWorkflow StateType "MessageWorkflowMapping list"
  | SaveWorkflowState WorkflowState

fun afterCalls ::
  "(string \<Rightarrow> bool) \<Rightarrow> PersistenceCall list \<Rightarrow> WorkflowStorage \<Rightarrow> WorkflowStorage" where
  "afterCalls inArrayPrototype [] store = store"
| "afterCalls inArrayPrototype (InitializeWorkflow st ms # calls) store =
     (case initializeWorkflow st ms store of
        Inl e \<Rightarrow> afterCalls inArrayPrototype calls store
      | Inr store' \<Rightarrow> afterCalls inArrayPrototype calls store')"
| "afterCalls inArrayPrototype (SaveWorkflowState s # calls) store =
     (case saveWorkflowState inArrayPrototype s store of
        Inl e \<Rightarrow> afterCalls inArrayPrototype calls store
      | Inr store' \<Rightarrow> afterCalls inArrayPrototype calls store')"

section \<open>Postgres persistence\<close>

text \<open>
  A row of the workflow table \<open>(id uuid primary key, version integer, data jsonb)\<close>. The model
  holds the rows of the one table that \<open>tableName\<close> names, created by \<open>ensureTableExists\<close>, in
  the order in which a scan returns them.
\<close>

record ('u, 'j) Row =
  row_id :: 'u
  row_version :: int
  row_data :: 'j

text \<open>
  What the database server and the serializer do with the values that pass between the code
  and the table; they are not part of the sources and are parameters of the model:
  \<open>pg_uuid_in\<close> is the input of the \<open>uuid\<close> column (\<open>None\<close>: the text is rejected);
  \<open>pg_jsonb_in\<close> is \<open>serialize\<close> followed by the input of the \<open>jsonb\<close> column;
  \<open>pg_jsonb_text\<close> is the operator \<open>->>\<close> (\<open>None\<close>: SQL null);
  \<open>pg_toClass\<close> is \<open>toClass\<close> of the serializer on the data of a row;
  \<open>pg_brokenSelect\<close> is the answer to the select statement when the property name, which
  the code splices into the text between quotes, does not stay inside its quotes.
\<close>

record ('u, 'j) Postgres =
  pg_uuid_in :: "string \<Rightarrow> 'u option"
  pg_jsonb_in :: "obj \<Rightarrow> 'j option"
  pg_jsonb_text :: "'j \<Rightarrow> string \<Rightarrow> string option"
  pg_toClass :: "'j \<Rightarrow> StateType \<Rightarrow> WorkflowState"
  pg_brokenSelect ::
    "string \<Rightarrow> bool \<Rightarrow> string option \<Rightarrow> ('u, 'j) Row list \<Rightarrow> error + WorkflowState list"

text \<open>The range of the column type \<open>integer\<close>.\<close>

definition int4 :: "int \<Rightarrow> bool" where
  "int4 n = (- 2147483648 \<le> n \<and> n \<le> 2147483647)"

text \<open>A text parameter must not contain the character with code 0.\<close>

definition validText :: "string \<Rightarrow> bool" where
  "validText k = (CHR 0x00 \<notin> set k)"

text \<open>
  \<open>toPlain\<close> of a workflow state: the plain object with the same properties.
\<close>

definition toPlain :: "WorkflowState \<Rightarrow> obj" where
  "toPlain s = (s_fields s)
     (''$workflowId'' \<mapsto> VStr (s_workflowId s),
      ''$name'' \<mapsto> VStr (s_name s),
      ''$version'' \<mapsto> VNum (s_version s),
      ''$status'' \<mapsto> VStr (statusValue (s_status s)))"

text \<open>
  \<open>insert into t (id, version, data) values ($1, $2, $3)\<close>: a parameter that its column type
  rejects fails the statement, and the primary key rejects a second row with the same id.
\<close>

definition sqlInsert ::
  "('u, 'j) Postgres \<Rightarrow> string \<Rightarrow> int \<Rightarrow> obj \<Rightarrow> ('u, 'j) Row list \<Rightarrow> error + ('u, 'j) Row list" where
  "sqlInsert pg workflowId newVersion plainWorkflowData rows =
     (case pg_uuid_in pg workflowId of
        None \<Rightarrow> Inl DatabaseError
      | Some u \<Rightarrow>
          if \<not> int4 newVersion then Inl DatabaseError
          else
            (case pg_jsonb_in pg plainWorkflowData of
               None \<Rightarrow> Inl DatabaseError
             | Some j \<Rightarrow>
                 if \<exists>r \<in> set rows. row_id r = u then Inl DatabaseError
                 else Inr (rows @ [\<lparr>row_id = u, row_version = newVersion, row_data = j\<rparr>])))"

text \<open>
  \<open>update t set version = $1, data = $2 where id = $3 and version = $4\<close>: the number of
  rows changed, and the table afterwards.
\<close>

definition sqlUpdate ::
  "('u, 'j) Postgres \<Rightarrow> int \<Rightarrow> obj \<Rightarrow> string \<Rightarrow> int \<Rightarrow> ('u, 'j) Row list \<Rightarrow>
   error + nat \<times> ('u, 'j) Row list" where
  "sqlUpdate pg newVersion plainWorkflowData workflowId oldVersion rows =
     (if \<not> int4 newVersion \<or> \<not> int4 oldVersion then Inl DatabaseError
      else
        (case pg_jsonb_in pg plainWorkflowData of
           None \<Rightarrow> Inl DatabaseError
         | Some j \<Rightarrow>
             (case pg_uuid_in pg workflowId of
                None \<Rightarrow> Inl DatabaseError
              | Some u \<Rightarrow>
                  Inr (length (filter (\<lambda>r. row_id r = u \<and> row_version r = oldVersion) rows),
                       map (\<lambda>r. if row_id r = u \<and> row_version r = oldVersion
                                then r\<lparr>row_version := newVersion, row_data := j\<rparr> else r)
                         rows))))"

definition upsertWorkflowData ::
  "('u, 'j) Postgres \<Rightarrow> string \<Rightarrow> string \<Rightarrow> obj \<Rightarrow> int \<Rightarrow> int \<Rightarrow> ('u, 'j) Row list \<Rightarrow>
   error + ('u, 'j) Row list" where
  "upsertWorkflowData pg tableName workflowId plainWorkflowData oldVersion newVersion rows =
     (if oldVersion = 0
      then sqlInsert pg workflowId newVersion plainWorkflowData rows
      else
        (case sqlUpdate pg newVersion plainWorkflowData workflowId oldVersion rows of
           Inl e \<Rightarrow> Inl e
         | Inr (rowCount, rows') \<Rightarrow>
             if rowCount = 0
             then Inl (WorkflowDataNotFound workflowId tableName oldVersion)
             else Inr rows'))"

text \<open>
  \<open>resolveQualifiedTableName\<close>: the characters outside \<open>[0-9a-zA-Z_.-]\<close> are removed, the
  rest is lower-cased, \<open>toSnakeCase\<close> is applied, and schema and table are quoted.
\<close>

definition isUpper :: "char \<Rightarrow> bool" where
  "isUpper c = (65 \<le> (of_char c :: nat) \<and> (of_char c :: nat) \<le> 90)"

definition isLegal :: "char \<Rightarrow> bool" where
  "isLegal c =
     (let n = (of_char c :: nat)
      in (48 \<le> n \<and> n \<le> 57) \<or> (97 \<le> n \<and> n \<le> 122) \<or> (65 \<le> n \<and> n \<le> 90)
         \<or> n = 95 \<or> n = 46 \<or> n = 45)"

definition toLower :: "char \<Rightarrow> char" where
  "toLower c = (if isUpper c then char_of ((of_char c :: nat) + 32) else c)"

fun toSnakeCase :: "string \<Rightarrow> string" where
  "toSnakeCase [] = []"
| "toSnakeCase (c # cs) =
     (if isUpper c then CHR ''_'' # toLower c # toSnakeCase cs else c # toSnakeCase cs)"

definition resolveQualifiedTableName :: "string \<Rightarrow> string \<Rightarrow> string" where
  "resolveQualifiedTableName tableName schemaName =
     (let normalizedTableName = map toLower (filter isLegal tableName);
          formattedTableName = toSnakeCase normalizedTableName
      in [CHR 0x22] @ schemaName @ [CHR 0x22, CHR ''.'', CHR 0x22] @ formattedTableName
         @ [CHR 0x22])"

definition saveWorkflowData ::
  "('u, 'j) Postgres \<Rightarrow> string \<Rightarrow> WorkflowState \<Rightarrow> ('u, 'j) Row list \<Rightarrow>
   error + ('u, 'j) Row list" where
  "saveWorkflowData pg schemaName workflowData rows =
     (let tableName = resolveQualifiedTableName (s_name workflowData) schemaName;
          oldVersion = s_version workflowData;
          newVersion = oldVersion + 1;
          plainWorkflowData = (toPlain workflowData)(''$version'' \<mapsto> VNum newVersion)
      in upsertWorkflowData pg tableName (s_workflowId workflowData) plainWorkflowData
           oldVersion newVersion rows)"

text \<open>
  The mapping that \<open>getWorkflowData\<close> takes, with the property names that this method reads.
\<close>

record WorkflowDataMapping =
  lookupMessage :: "Message \<Rightarrow> MessageAttributes \<Rightarrow> string option"
  workflowDataProperty :: string

text \<open>
  The property name stays inside the quotes of \<open>data->>'...'\<close> when it contains neither a
  quote nor the character with code 0.
\<close>

definition staysQuoted :: "string \<Rightarrow> bool" where
  "staysQuoted p = (CHR 0x27 \<notin> set p \<and> CHR 0x00 \<notin> set p)"

text \<open>
  The condition of the select statement on one row:
  \<open>(includeCompleted = true or data->>'$status' = 'running') and (data->>'p') is not null
  and (data->>'p')::text = $1\<close>; a comparison with SQL null does not select the row.
\<close>

definition selected ::
  "('u, 'j) Postgres \<Rightarrow> bool \<Rightarrow> string \<Rightarrow> string option \<Rightarrow> ('u, 'j) Row \<Rightarrow> bool" where
  "selected pg includeCompleted p matcherValue r =
     ((includeCompleted \<or> pg_jsonb_text pg (row_data r) ''$status'' = Some ''running'')
      \<and> pg_jsonb_text pg (row_data r) p \<noteq> None
      \<and> matcherValue \<noteq> None
      \<and> pg_jsonb_text pg (row_data r) p = matcherValue)"

text \<open>
  \<open>getWorkflowData\<close>. The parameter \<open>includeCompleted\<close> defaults to \<open>false\<close>; an \<open>undefined\<close>
  key is sent as SQL null.
\<close>

definition getWorkflowData ::
  "('u, 'j) Postgres \<Rightarrow> StateType \<Rightarrow> WorkflowDataMapping \<Rightarrow> Message \<Rightarrow> MessageAttributes \<Rightarrow>
   bool option \<Rightarrow> ('u, 'j) Row list \<Rightarrow> error + WorkflowState list" where
  "getWorkflowData pg workflowDataConstructor messageMap message messageOptions
       includeCompletedArg rows =
     (let includeCompleted = (case includeCompletedArg of None \<Rightarrow> False | Some b \<Rightarrow> b);
          matcherValue = lookupMessage messageMap message messageOptions;
          p = workflowDataProperty messageMap
      in if \<not> staysQuoted p then pg_brokenSelect pg p includeCompleted matcherValue rows
         else if (case matcherValue of None \<Rightarrow> False | Some k \<Rightarrow> \<not> validText k)
         then Inl DatabaseError
         else Inr (map (\<lambda>r. pg_toClass pg (row_data r) workflowDataConstructor)
                    (filter (selected pg includeCompleted p matcherValue) rows)))"

section \<open>Persistence interface\<close>

text \<open>
  Modelled from the spec: the interface \<open>Persistence\<close> (persistence.ts is not among the
  sources), as \<open>getPersistence()\<close> returns it: its operations over its own state \<open>'p\<close>. The
  hook \<open>initialize\<close> is optional. A persistence is taken to be configured.
\<close>

record 'p Persistence =
  p_initialize :: "('p \<Rightarrow> error + 'p) option"
  p_initializeWorkflow :: "StateType \<Rightarrow> MessageWorkflowMapping list \<Rightarrow> 'p \<Rightarrow> error + 'p"
  p_getWorkflowState ::
    "StateType \<Rightarrow> MessageWorkflowMapping \<Rightarrow> Message \<Rightarrow> MessageAttributes \<Rightarrow> bool option \<Rightarrow>
     'p \<Rightarrow> error + WorkflowState list"
  p_saveWorkflowState :: "WorkflowState \<Rightarrow> 'p \<Rightarrow> error + 'p"

definition inMemoryPersistence :: "(string \<Rightarrow> bool) \<Rightarrow> WorkflowStorage Persistence" where
  "inMemoryPersistence inArrayPrototype =
     \<lparr>p_initialize = None,
      p_initializeWorkflow = initializeWorkflow,
      p_getWorkflowState = getWorkflowState inArrayPrototype,
      p_saveWorkflowState = saveWorkflowState inArrayPrototype\<rparr>"

section \<open>Step dispatcher\<close>

definition createWorkflowState :: "StateType \<Rightarrow> string \<Rightarrow> WorkflowState" where
  "createWorkflowState workflowStateType uuid =
     (st_new workflowStateType)\<lparr>s_status := Running, s_workflowId := uuid\<rparr>"

definition persist :: "'p Persistence \<Rightarrow> WorkflowState \<Rightarrow> 'p \<Rightarrow> error + 'p" where
  "persist pers dat p =
     (case p_saveWorkflowState pers dat p of
        Inl err \<Rightarrow> Inl err
      | Inr p' \<Rightarrow> Inr p')"

text \<open>
  The step receives \<open>Object.freeze({...workflowState})\<close>, a copy with the same properties.
\<close>

definition dispatchMessageToWorkflow ::
  "'p Persistence \<Rightarrow> Message \<Rightarrow> MessageAttributes \<Rightarrow> string \<Rightarrow> WorkflowState \<Rightarrow> StateType \<Rightarrow>
   WhenHandler \<Rightarrow> 'p \<Rightarrow> error + 'p" where
  "dispatchMessageToWorkflow pers message attrs workflowName workflowState
       workflowStateConstructor handler p =
     (let immutableWorkflowState = workflowState
      in case handler message attrs immutableWorkflowState of
           Inl e \<Rightarrow> Inl e
         | Inr None \<Rightarrow> Inr p
         | Inr (Some workflowStateOutput) \<Rightarrow>
             if d_status workflowStateOutput = Some Discard then Inr p
             else
               (let updatedWorkflowState =
                      assignDelta (assignState (st_new workflowStateConstructor) workflowState)
                        workflowStateOutput
                in case persist pers updatedWorkflowState p of
                     Inl err \<Rightarrow> Inl err
                   | Inr p' \<Rightarrow> Inr p'))"

section \<open>Workflow registry\<close>

record OnWhenHandler =
  ow_handler :: WhenHandler
  ow_options :: MessageWorkflowMapping

text \<open>
  Modelled from the spec: the workflow definition (workflow.ts is not among the sources), with
  the properties that the workflow registry reads. The two \<open>Map\<close>s are association lists in
  insertion order, the order in which \<open>forEach\<close> visits them.
\<close>

record Workflow =
  workflowName :: string
  stateType :: StateType
  onStartedBy :: "(MessageType \<times> WhenHandler) list"
  onWhen :: "(MessageType \<times> OnWhenHandler) list"

text \<open>
  The process-wide state that the workflow registry works on: its own three fields, the
  handler registry singleton, the state of the configured persistence, and the next free
  reference for a function object.
\<close>

record 'p World =
  workflowRegistry :: "Workflow list"
  isInitialized :: bool
  isInitializing :: bool
  handlerRegistry :: HandlerRegistry
  persistenceState :: 'p
  nextRef :: nat

definition registerWorkflow :: "Workflow \<Rightarrow> 'p World \<Rightarrow> (error + unit) \<times> 'p World" where
  "registerWorkflow workflow w =
     (if isInitialized w
      then (Inl (Error (''Attempted to register workflow ('' @ workflowName workflow
                  @ '') after workflows have been initialized'')), w)
      else if \<exists>r \<in> set (workflowRegistry w). workflowName r = workflowName workflow
      then (Inl (Error (''Attempted to register two workflows with the same name (''
                  @ workflowName workflow @ '')'')), w)
      else (Inr (), w\<lparr>workflowRegistry := workflowRegistry w @ [workflow]\<rparr>))"

text \<open>
  The body of the arrow function that \<open>registerFnStartedBy\<close> registers; \<open>uuid\<close> is the value
  that \<open>uuid.v4()\<close> returns in this call.
\<close>

definition startedByHandler ::
  "'p Persistence \<Rightarrow> StateType \<Rightarrow> WhenHandler \<Rightarrow> string \<Rightarrow> Message \<Rightarrow> MessageAttributes \<Rightarrow>
   'p \<Rightarrow> error + 'p" where
  "startedByHandler pers workflowStateType handler uuid message attrs p =
     (let workflowState = createWorkflowState workflowStateType uuid;
          immutableWorkflowState = workflowState
      in case handler message attrs immutableWorkflowState of
           Inl e \<Rightarrow> Inl e
         | Inr None \<Rightarrow> Inr p
         | Inr (Some result) \<Rightarrow>
             p_saveWorkflowState pers (assignDelta workflowState result) p)"

text \<open>
  Running a handler that the workflow registry installed. Only the started-by function is
  given a body here.
\<close>

fun invokeStartedBy ::
  "'p Persistence \<Rightarrow> handler \<Rightarrow> string \<Rightarrow> Message \<Rightarrow> MessageAttributes \<Rightarrow> 'p \<Rightarrow>
   (error + 'p) option" where
  "invokeStartedBy pers (StartedByFn _ workflowStateType handler) uuid message attrs p =
     Some (startedByHandler pers workflowStateType handler uuid message attrs p)"
| "invokeStartedBy pers _ uuid message attrs p = None"

text \<open>\<open>workflow.onStartedBy.forEach(...)\<close> and \<open>workflow.onWhen.forEach(...)\<close>.\<close>

fun forEachStartedBy ::
  "Workflow \<Rightarrow> (MessageType \<times> WhenHandler) list \<Rightarrow> 'p World \<Rightarrow> (error + unit) \<times> 'p World" where
  "forEachStartedBy workflow [] w = (Inr (), w)"
| "forEachStartedBy workflow ((messageConstructor, handler) # rest) w =
     (let fn = StartedByFn (nextRef w) (stateType workflow) handler;
          w1 = w\<lparr>nextRef := nextRef w + 1\<rparr>
      in case register messageConstructor fn None None (handlerRegistry w1) of
           (Inl e, r) \<Rightarrow> (Inl e, w1\<lparr>handlerRegistry := r\<rparr>)
         | (Inr _, r) \<Rightarrow> forEachStartedBy workflow rest (w1\<lparr>handlerRegistry := r\<rparr>))"

definition registerFnStartedBy :: "Workflow \<Rightarrow> 'p World \<Rightarrow> (error + unit) \<times> 'p World" where
  "registerFnStartedBy workflow w = forEachStartedBy workflow (onStartedBy workflow) w"

fun forEachWhen ::
  "Workflow \<Rightarrow> (MessageType \<times> OnWhenHandler) list \<Rightarrow> 'p World \<Rightarrow> (error + unit) \<times> 'p World" where
  "forEachWhen workflow [] w = (Inr (), w)"
| "forEachWhen workflow ((messageConstructor, handler) # rest) w =
     (let messageMapping =
            \<lparr>lookup = lookup (ow_options handler), mapsTo = mapsTo (ow_options handler)\<rparr>;
          fn = HandlesFn (nextRef w) (workflowName workflow) (stateType workflow)
                 messageMapping (ow_handler handler);
          w1 = w\<lparr>nextRef := nextRef w + 1\<rparr>
      in case register messageConstructor fn None None (handlerRegistry w1) of
           (Inl e, r) \<Rightarrow> (Inl e, w1\<lparr>handlerRegistry := r\<rparr>)
         | (Inr _, r) \<Rightarrow> forEachWhen workflow rest (w1\<lparr>handlerRegistry := r\<rparr>))"

definition registerFnHandles :: "Workflow \<Rightarrow> 'p World \<Rightarrow> (error + unit) \<times> 'p World" where
  "registerFnHandles workflow w = forEachWhen workflow (onWhen workflow) w"

text \<open>The \<open>for\<close> loop of \<open>initialize\<close> over the registered workflows.\<close>

fun initializeEach ::
  "'p Persistence \<Rightarrow> Workflow list \<Rightarrow> 'p World \<Rightarrow> (error + unit) \<times> 'p World" where
  "initializeEach pers [] w = (Inr (), w)"
| "initializeEach pers (workflow # rest) w =
     (case registerFnStartedBy workflow w of
        (Inl e, w1) \<Rightarrow> (Inl e, w1)
      | (Inr _, w1) \<Rightarrow>
          (case registerFnHandles workflow w1 of
             (Inl e, w2) \<Rightarrow> (Inl e, w2)
           | (Inr _, w2) \<Rightarrow>
               (let messageWorkflowMappings = map (\<lambda>(_, onWhenHandler). ow_options onWhenHandler)
                      (onWhen workflow)
                in case p_initializeWorkflow pers (stateType workflow) messageWorkflowMappings
                          (persistenceState w2) of
                     Inl e \<Rightarrow> (Inl e, w2)
                   | Inr p' \<Rightarrow> initializeEach pers rest (w2\<lparr>persistenceState := p'\<rparr>))))"

text \<open>
  \<open>initialize\<close> in two parts: \<open>initializeWorkflows\<close> runs from the entry of the method to the
  assignment \<open>this.workflowRegistry = []\<close>; \<open>initializePersistence\<close> awaits the optional hook of
  the persistence and sets the two flags. \<open>None\<close> is the early return of the method.
\<close>

definition initializeWorkflows ::
  "'p Persistence \<Rightarrow> 'p World \<Rightarrow> (error + unit option) \<times> 'p World" where
  "initializeWorkflows pers w =
     (if length (workflowRegistry w) = 0 then (Inr None, w)
      else if isInitialized w \<or> isInitializing w
      then (Inl (Error (''Attempted to initialize workflow registry ''
                  @ ''after it has already been initialized.'')), w)
      else
        (let w1 = w\<lparr>isInitializing := True\<rparr>
         in case initializeEach pers (workflowRegistry w1) w1 of
              (Inl e, w2) \<Rightarrow> (Inl e, w2)
            | (Inr _, w2) \<Rightarrow> (Inr (Some ()), w2\<lparr>workflowRegistry := []\<rparr>)))"

definition initializePersistence ::
  "'p Persistence \<Rightarrow> 'p World \<Rightarrow> (error + unit) \<times> 'p World" where
  "initializePersistence pers w =
     (case p_initialize pers of
        None \<Rightarrow> (Inr (), w\<lparr>isInitialized := True, isInitializing := False\<rparr>)
      | Some hook \<Rightarrow>
          (case hook (persistenceState w) of
             Inl e \<Rightarrow> (Inl e, w)
           | Inr p' \<Rightarrow>
               (Inr (), w\<lparr>persistenceState := p', isInitialized := True,
                           isInitializing := False\<rparr>)))"

definition initialize :: "'p Persistence \<Rightarrow> 'p World \<Rightarrow> (error + unit) \<times> 'p World" where
  "initialize pers w =
     (case initializeWorkflows pers w of
        (Inl e, w1) \<Rightarrow> (Inl e, w1)
      | (Inr None, w1) \<Rightarrow> (Inr (), w1)
      | (Inr (Some _), w1) \<Rightarrow> initializePersistence pers w1)"

definition newWorld :: "'p \<Rightarrow> 'p World" where
  "newWorld p =
     \<lparr>workflowRegistry = [], isInitialized = False, isInitializing = False,
      handlerRegistry = newHandlerRegistry, persistenceState = p, nextRef = 0\<rparr>"

section \<open>Example values\<close>

text \<open>Concrete handlers, message types, messages and registries, used to run the model.\<close>

definition ex_h1 :: handler where
  "ex_h1 = FunctionHandler 1 ''h1''"

definition ex_h2 :: handler where
  "ex_h2 = FunctionHandler 2 ''h2''"

definition ex_typeA :: MessageType where
  "ex_typeA = MessageType 1 ''A''"

definition ex_typeB :: MessageType where
  "ex_typeB = MessageType 2 ''B''"

definition ex_typeEmpty :: MessageType where
  "ex_typeEmpty = MessageType 3 []"

definition ex_typeToString :: MessageType where
  "ex_typeToString = MessageType 4 ''toString''"

definition ex_msgA :: Message where
  "ex_msgA = \<lparr>msg_name = Some ''A'', msg_body = Map.empty\<rparr>"

definition ex_msgB :: Message where
  "ex_msgB = \<lparr>msg_name = Some ''B'', msg_body = Map.empty\<rparr>"

definition ex_msgEmpty :: Message where
  "ex_msgEmpty = \<lparr>msg_name = Some [], msg_body = Map.empty\<rparr>"

definition ex_isA :: "Message \<Rightarrow> bool" where
  "ex_isA m = (msg_name m = Some ''A'')"

definition ex_isB :: "Message \<Rightarrow> bool" where
  "ex_isB m = (msg_name m = Some ''B'')"

definition ex_requests :: "registration list" where
  "ex_requests = [(ex_typeA, ex_h1, None, None), (ex_typeB, ex_h2, Some ex_isA, None)]"

definition ex_plainRequests :: "registration list" where
  "ex_plainRequests = [(ex_typeA, ex_h1, None, None), (ex_typeB, ex_h2, None, None)]"

definition ex_registry :: HandlerRegistry where
  "ex_registry = snd (register ex_typeA ex_h1 None None newHandlerRegistry)"

definition ex_registry_rw :: HandlerRegistry where
  "ex_registry_rw = snd (register_rw ex_typeA ex_h1 None None newHandlerRegistry)"

text \<open>Workflow states; the ids have the form that \<open>uuid.v4()\<close> produces.\<close>

definition ex_id1 :: string where
  "ex_id1 = ''11111111-1111-4111-8111-111111111111''"

definition ex_id2 :: string where
  "ex_id2 = ''22222222-2222-4222-8222-222222222222''"

definition ex_id3 :: string where
  "ex_id3 = ''33333333-3333-4333-8333-333333333333''"

definition ex_newState :: WorkflowState where
  "ex_newState = \<lparr>s_workflowId = [], s_name = ''TestState'', s_version = 0,
     s_status = Running, s_fields = Map.empty\<rparr>"

definition ex_stateType :: StateType where
  "ex_stateType = \<lparr>st_className = ''TestState'', st_new = ex_newState\<rparr>"

text \<open>A second state class whose instances carry the same \<open>$name\<close>.\<close>

definition ex_twinType :: StateType where
  "ex_twinType = \<lparr>st_className = ''TwinState'', st_new = ex_newState\<rparr>"

definition ex_otherType :: StateType where
  "ex_otherType = \<lparr>st_className = ''OtherState'',
     st_new = ex_newState\<lparr>s_name := ''OtherState''\<rparr>\<rparr>"

definition ex_attrs :: MessageAttributes where
  "ex_attrs = \<lparr>correlationId = None, attributes = Map.empty, stickyAttributes = Map.empty\<rparr>"

definition ex_lookup :: "Message \<Rightarrow> MessageAttributes \<Rightarrow> string option" where
  "ex_lookup m a = (case msg_body m ''orderId'' of Some (VStr k) \<Rightarrow> Some k | _ \<Rightarrow> None)"

definition ex_mapping :: MessageWorkflowMapping where
  "ex_mapping = \<lparr>lookup = ex_lookup, mapsTo = ''orderId''\<rparr>"

definition ex_dataMapping :: WorkflowDataMapping where
  "ex_dataMapping = \<lparr>lookupMessage = ex_lookup, workflowDataProperty = ''orderId''\<rparr>"

definition ex_order :: Message where
  "ex_order = \<lparr>msg_name = Some ''B'', msg_body = [''orderId'' \<mapsto> VStr ''X'']\<rparr>"

definition ex_stored :: WorkflowState where
  "ex_stored = \<lparr>s_workflowId = ex_id1, s_name = ''TestState'', s_version = 3,
     s_status = Running, s_fields = [''orderId'' \<mapsto> VStr ''X'']\<rparr>"

definition ex_completed :: WorkflowState where
  "ex_completed = \<lparr>s_workflowId = ex_id2, s_name = ''TestState'', s_version = 5,
     s_status = Complete, s_fields = [''orderId'' \<mapsto> VStr ''X'']\<rparr>"

definition ex_other :: WorkflowState where
  "ex_other = \<lparr>s_workflowId = ex_id3, s_name = ''TestState'', s_version = 1,
     s_status = Running, s_fields = [''orderId'' \<mapsto> VStr ''Y'']\<rparr>"

definition ex_stale :: WorkflowState where
  "ex_stale = \<lparr>s_workflowId = ex_id1, s_name = ''TestState'', s_version = 1,
     s_status = Running, s_fields = Map.empty\<rparr>"

definition ex_first :: WorkflowState where
  "ex_first = \<lparr>s_workflowId = ex_id2, s_name = ''TestState'', s_version = 0,
     s_status = Running, s_fields = Map.empty\<rparr>"

text \<open>The names of \<open>Array.prototype\<close> in one runtime.\<close>

definition ex_inArrayPrototype :: "string \<Rightarrow> bool" where
  "ex_inArrayPrototype n =
     (n \<in> set [''concat'', ''copyWithin'', ''fill'', ''find'', ''findIndex'', ''lastIndexOf'',
        ''pop'', ''push'', ''reverse'', ''shift'', ''unshift'', ''slice'', ''sort'', ''splice'',
        ''includes'', ''indexOf'', ''join'', ''keys'', ''entries'', ''values'', ''forEach'',
        ''filter'', ''flat'', ''flatMap'', ''map'', ''every'', ''some'', ''reduce'',
        ''reduceRight'', ''toLocaleString'', ''toString'', ''constructor''])"

definition ex_store :: WorkflowStorage where
  "ex_store = \<lparr>ws_own = [(''TestState'', [ex_stored, ex_completed, ex_other])],
     ws_proto = None\<rparr>"

definition ex_initialized :: WorkflowStorage where
  "ex_initialized = \<lparr>ws_own = [(''TestState'', [])], ws_proto = None\<rparr>"

text \<open>
  A database for the examples: it accepts the three ids, stores a plain object as it is, and
  reads the text of a string property.
\<close>

definition ex_uuid_in :: "string \<Rightarrow> string option" where
  "ex_uuid_in s = (if s \<in> set [ex_id1, ex_id2, ex_id3] then Some s else None)"

definition ex_jsonb_text :: "obj \<Rightarrow> string \<Rightarrow> string option" where
  "ex_jsonb_text j k = (case j k of Some (VStr s) \<Rightarrow> Some s | _ \<Rightarrow> None)"

definition ex_toClass :: "obj \<Rightarrow> StateType \<Rightarrow> WorkflowState" where
  "ex_toClass j ctor = (st_new ctor)\<lparr>s_fields := j\<rparr>"

definition ex_pg :: "(string, obj) Postgres" where
  "ex_pg = \<lparr>pg_uuid_in = ex_uuid_in, pg_jsonb_in = Some, pg_jsonb_text = ex_jsonb_text,
     pg_toClass = ex_toClass, pg_brokenSelect = (\<lambda>p inc k rows. Inl DatabaseError)\<rparr>"

definition ex_dataX :: obj where
  "ex_dataX = [''orderId'' \<mapsto> VStr ''X'', ''$status'' \<mapsto> VStr ''running'']"

definition ex_dataDone :: obj where
  "ex_dataDone = [''orderId'' \<mapsto> VStr ''X'', ''$status'' \<mapsto> VStr ''complete'']"

definition ex_dataY :: obj where
  "ex_dataY = [''orderId'' \<mapsto> VStr ''Y'', ''$status'' \<mapsto> VStr ''running'']"

definition ex_row :: "(string, obj) Row" where
  "ex_row = \<lparr>row_id = ex_id1, row_version = 3, row_data = ex_dataX\<rparr>"

definition ex_rows :: "(string, obj) Row list" where
  "ex_rows = [ex_row,
     \<lparr>row_id = ex_id2, row_version = 5, row_data = ex_dataDone\<rparr>,
     \<lparr>row_id = ex_id3, row_version = 1, row_data = ex_dataY\<rparr>]"

text \<open>Steps and a workflow.\<close>

definition ex_delta :: StateDelta where
  "ex_delta = \<lparr>d_workflowId = None, d_name = None, d_version = None, d_status = None,
     d_fields = [''paid'' \<mapsto> VBool True]\<rparr>"

definition ex_step :: WhenHandler where
  "ex_step m a s = Inr (Some ex_delta)"

definition ex_discardStep :: WhenHandler where
  "ex_discardStep m a s = Inr (Some (ex_delta\<lparr>d_status := Some Discard\<rparr>))"

definition ex_idleStep :: WhenHandler where
  "ex_idleStep m a s = Inr None"

definition ex_workflow :: Workflow where
  "ex_workflow = \<lparr>workflowName = ''wf'', stateType = ex_stateType,
     onStartedBy = [(ex_typeA, ex_step)],
     onWhen = [(ex_typeB, \<lparr>ow_handler = ex_step, ow_options = ex_mapping\<rparr>)]\<rparr>"

definition ex_world :: "WorkflowStorage World" where
  "ex_world = snd (registerWorkflow ex_workflow (newWorld newWorkflowStorage))"

text \<open>The in-memory persistence in that runtime.\<close>

definition ex_persistence :: "WorkflowStorage Persistence" where
  "ex_persistence = inMemoryPersistence ex_inArrayPrototype"

text \<open>
  The Postgres persistence over the example database and the schema \<open>public\<close>, behind the
  interface that the workflow registry calls: \<open>getWorkflowState\<close> and \<open>saveWorkflowState\<close> are
  its \<open>getWorkflowData\<close> and \<open>saveWorkflowData\<close>; schema and table exist already.
\<close>

definition ex_postgresPersistence :: "(string, obj) Row list Persistence" where
  "ex_postgresPersistence =
     \<lparr>p_initialize = Some (\<lambda>rows. Inr rows),
      p_initializeWorkflow = (\<lambda>st ms rows. Inr rows),
      p_getWorkflowState = (\<lambda>st mm. getWorkflowData ex_pg st
         \<lparr>lookupMessage = lookup mm, workflowDataProperty = mapsTo mm\<rparr>),
      p_saveWorkflowState = saveWorkflowData ex_pg ''public''\<rparr>"

text \<open>The versions held by a storage or a table after an operation; nothing after an error.\<close>

fun storedVersions :: "error + WorkflowStorage \<Rightarrow> (string \<times> int list) list" where
  "storedVersions (Inl e) = []"
| "storedVersions (Inr store) = map (\<lambda>(n, rows). (n, map s_version rows)) (ws_own store)"

fun rowVersions :: "error + ('u, 'j) Row list \<Rightarrow> ('u \<times> int) list" where
  "rowVersions (Inl e) = []"
| "rowVersions (Inr rows) = map (\<lambda>r. (row_id r, row_version r)) rows"
section \<open>Properties of the handler registry\<close>

subsection \<open>Effect of the operations on the stored handler lists\<close>

lemma readRegistry_Own:
  "(readRegistry r n = Own e) = (map_of (registry r) n = Some e)"
  by (auto simp: readRegistry_def split: option.splits)

lemma readRegistry_Inherited:
  "(readRegistry r n = Inherited) =
     (map_of (registry r) n = None \<and> n \<in> set objectPrototypeNames)"
  by (auto simp: readRegistry_def split: option.splits)

lemma readRegistry_Missing:
  "(readRegistry r n = Missing) =
     (map_of (registry r) n = None \<and> n \<notin> set objectPrototypeNames)"
  by (auto simp: readRegistry_def split: option.splits)

lemma map_of_ensureEntry:
  "map_of (registry (ensureEntry mt r)) n =
     (if n = mt_name mt \<and> readRegistry r n = Missing
      then Some \<lparr>rh_messageType = mt, rh_handlers = []\<rparr>
      else map_of (registry r) n)"
  by (auto simp: ensureEntry_def update_conv' split: RegistryValue.splits)

lemma handlersOf_ensureEntry [simp]:
  "handlersOf (ensureEntry mt r) n = handlersOf r n"
  by (auto simp: handlersOf_def map_of_ensureEntry readRegistry_Missing)

lemma readRegistry_ensureEntry:
  "readRegistry (ensureEntry mt r) n =
     (if n = mt_name mt \<and> readRegistry r n = Missing
      then Own \<lparr>rh_messageType = mt, rh_handlers = []\<rparr>
      else readRegistry r n)"
  by (auto simp: readRegistry_def map_of_ensureEntry split: option.splits)

lemma handlersOf_pushHandler:
  "map_of (registry r) n \<noteq> None \<Longrightarrow>
   handlersOf (pushHandler n h r) n' =
     (if n' = n then handlersOf r n @ [h] else handlersOf r n')"
  by (auto simp: handlersOf_def pushHandler_def update_conv' split: option.splits)

lemma ensureEntry_other [simp]:
  "unhandledMessages (ensureEntry mt r) = unhandledMessages r"
  "handlerResolvers (ensureEntry mt r) = handlerResolvers r"
  by (auto simp: ensureEntry_def split: RegistryValue.splits)

lemma pushHandler_other [simp]:
  "unhandledMessages (pushHandler n h r) = unhandledMessages r"
  "handlerResolvers (pushHandler n h r) = handlerResolvers r"
  by (auto simp: pushHandler_def split: option.splits)

lemma pushResolver_registry [simp]:
  "registry (pushResolver mt h rw ti r) = registry r"
  "unhandledMessages (pushResolver mt h rw ti r) = unhandledMessages r"
  by (auto simp: pushResolver_def split: option.splits)

lemma handlersOf_pushResolver [simp]:
  "handlersOf (pushResolver mt h rw ti r) n = handlersOf r n"
  by (simp add: handlersOf_def)

lemma readRegistry_pushResolver [simp]:
  "readRegistry (pushResolver mt h rw ti r) n = readRegistry r n"
  by (simp add: readRegistry_def)

lemma fst_checkAndPush_ensureEntry:
  "fst (checkAndPush (mt_name mt) h (ensureEntry mt r)) =
     (if h \<in> set (handlersOf r (mt_name mt))
      then Inl (HandlerAlreadyRegistered (handler_name h))
      else if readRegistry r (mt_name mt) = Inherited then Inl TypeError
      else Inr ())"
proof (cases "readRegistry r (mt_name mt)")
  case (Own e)
  then have m: "map_of (registry r) (mt_name mt) = Some e" by (simp add: readRegistry_Own)
  from Own m show ?thesis
    by (simp add: checkAndPush_def readRegistry_ensureEntry Let_def handlersOf_def)
next
  case Inherited
  then have m: "map_of (registry r) (mt_name mt) = None" by (simp add: readRegistry_Inherited)
  from Inherited m show ?thesis
    by (simp add: checkAndPush_def readRegistry_ensureEntry handlersOf_def)
next
  case Missing
  then have m: "map_of (registry r) (mt_name mt) = None" by (simp add: readRegistry_Missing)
  from Missing m show ?thesis
    by (simp add: checkAndPush_def readRegistry_ensureEntry Let_def handlersOf_def)
qed

lemma handlersOf_checkAndPush_ensureEntry:
  "handlersOf (snd (checkAndPush (mt_name mt) h (ensureEntry mt r))) n =
     (if n = mt_name mt \<and> h \<notin> set (handlersOf r n) \<and> readRegistry r n \<noteq> Inherited
      then handlersOf r n @ [h] else handlersOf r n)"
proof (cases "readRegistry r (mt_name mt)")
  case (Own e)
  then have m: "map_of (registry r) (mt_name mt) = Some e" by (simp add: readRegistry_Own)
  with Own show ?thesis
    by (auto simp: checkAndPush_def readRegistry_ensureEntry Let_def handlersOf_pushHandler
        map_of_ensureEntry)
       (auto simp: handlersOf_def)
next
  case Inherited
  then show ?thesis
    by (auto simp: checkAndPush_def readRegistry_ensureEntry)
next
  case Missing
  then have m: "map_of (registry r) (mt_name mt) = None" by (simp add: readRegistry_Missing)
  with Missing show ?thesis
    by (auto simp: checkAndPush_def readRegistry_ensureEntry Let_def handlersOf_pushHandler
        map_of_ensureEntry)
       (auto simp: handlersOf_def)
qed

lemma fst_register:
  "fst (register mt h rw ti r) =
     (if h \<in> set (handlersOf r (mt_name mt))
      then Inl (HandlerAlreadyRegistered (handler_name h))
      else if readRegistry r (mt_name mt) = Inherited then Inl TypeError
      else Inr ())"
  by (simp add: register_def Let_def fst_checkAndPush_ensureEntry)

lemma fst_register_rw:
  "fst (register_rw mt h rw ti r) =
     (if h \<in> set (handlersOf r (mt_name mt))
      then Inl (HandlerAlreadyRegistered (handler_name h))
      else if readRegistry r (mt_name mt) = Inherited then Inl TypeError
      else Inr ())"
  by (simp add: register_rw_def Let_def fst_checkAndPush_ensureEntry)

lemma handlersOf_register:
  "handlersOf (snd (register mt h rw ti r)) n =
     (if n = mt_name mt \<and> h \<notin> set (handlersOf r n) \<and> readRegistry r n \<noteq> Inherited
      then handlersOf r n @ [h] else handlersOf r n)"
  by (simp add: register_def Let_def handlersOf_checkAndPush_ensureEntry)

lemma handlersOf_register_rw:
  "handlersOf (snd (register_rw mt h rw ti r)) n =
     (if n = mt_name mt \<and> h \<notin> set (handlersOf r n) \<and> readRegistry r n \<noteq> Inherited
      then handlersOf r n @ [h] else handlersOf r n)"
  by (simp add: register_rw_def Let_def handlersOf_checkAndPush_ensureEntry)

lemma handlersOf_get [simp]: "handlersOf (snd (get n r)) m = handlersOf r m"
  by (auto simp: get_def handlersOf_def split: RegistryValue.splits)

lemma handlersOf_get_rw [simp]: "handlersOf (snd (get_rw msg r)) m = handlersOf r m"
  by (auto simp: get_rw_def Let_def handlersOf_def split: option.splits)

lemma handlersOf_reset [simp]: "handlersOf (reset r) m = []" "handlersOf (reset_rw r) m = []"
  by (auto simp: reset_def reset_rw_def handlersOf_def)

lemma handlersOf_new [simp]: "handlersOf newHandlerRegistry n = []"
  by (simp add: handlersOf_def newHandlerRegistry_def)

lemma reachable_distinct: "reachable r \<Longrightarrow> distinct (handlersOf r n)"
  by (induction arbitrary: n rule: reachable.induct) (auto simp: handlersOf_register)

lemma reachable_rw_distinct: "reachable_rw r \<Longrightarrow> distinct (handlersOf r n)"
  by (induction arbitrary: n rule: reachable_rw.induct) (auto simp: handlersOf_register_rw)

lemma fst_get_registered:
  "h \<in> set (handlersOf r n) \<Longrightarrow> fst (get n r) = Some (handlersOf r n)"
  by (auto simp: get_def handlersOf_def readRegistry_def split: option.splits)

lemma fst_get_plain:
  "n \<notin> set objectPrototypeNames \<Longrightarrow> fst (get n r) = Some (handlersOf r n)"
  by (auto simp: get_def handlersOf_def readRegistry_def split: option.splits)

lemma fst_get_rw:
  "\<not> readsInherited m r \<Longrightarrow>
   fst (get_rw m r) =
     Inr ((case msg_name m of None \<Rightarrow> [] | Some n \<Rightarrow> if n = [] then [] else handlersOf r n)
          @ resolveCustomHandlers m r)"
  by (cases "msg_name m")
     (auto simp: get_rw_def Let_def handlersOf_def readsInherited_def messageHandlersOf_def
        readRegistry_def split: option.splits)

lemma fst_get_rw_inherited:
  "readsInherited m r \<Longrightarrow> fst (get_rw m r) = Inl TypeError"
  by (cases "msg_name m")
     (auto simp: get_rw_def Let_def readsInherited_def messageHandlersOf_def
        split: option.splits)

lemma handlerResolvers_checkAndPush [simp]:
  "handlerResolvers (snd (checkAndPush n h r)) = handlerResolvers r"
  by (cases "readRegistry r n") (simp_all add: checkAndPush_def Let_def)

lemma unhandled_checkAndPush [simp]:
  "unhandledMessages (snd (checkAndPush n h r)) = unhandledMessages r"
  by (cases "readRegistry r n") (simp_all add: checkAndPush_def Let_def)

lemma resolvers_register_rw:
  "handlerResolvers (snd (register_rw mt h rw ti r)) =
     handlerResolvers r @
       (case rw of None \<Rightarrow> []
        | Some p \<Rightarrow> [\<lparr>hr_handler = h, hr_messageType = Some mt, hr_resolver = p,
                       hr_topicIdentifier = ti\<rparr>])"
  by (simp add: register_rw_def Let_def pushResolver_def split: option.splits)

lemma resolveCustomHandlers_append:
  "handlerResolvers r' = handlerResolvers r @ xs \<Longrightarrow>
   resolveCustomHandlers m r' =
     resolveCustomHandlers m r @ map hr_handler (filter (\<lambda>x. hr_resolver x m) xs)"
  by (simp add: resolveCustomHandlers_def)

lemma registerAll_rw_handlersOf:
  "registerAll_rw qs r = (Inr (), r') \<Longrightarrow>
   handlersOf r' n = handlersOf r n @ [h. (mt, h, rw, ti) \<leftarrow> qs, mt_name mt = n]"
proof (induction qs arbitrary: r)
  case Nil
  then show ?case by simp
next
  case (Cons q qs)
  obtain mt h rw ti where q: "q = (mt, h, rw, ti)" by (cases q)
  obtain res r1 where reg: "register_rw mt h rw ti r = (res, r1)" by (cases "register_rw mt h rw ti r")
  from Cons.prems q reg have ok: "res = Inr ()" and rest: "registerAll_rw qs r1 = (Inr (), r')"
    by (auto split: sum.splits)
  from reg ok have "h \<notin> set (handlersOf r (mt_name mt)) \<and> readRegistry r (mt_name mt) \<noteq> Inherited"
    using fst_register_rw [of mt h rw ti r] by (auto split: if_splits)
  with reg have "handlersOf r1 n = handlersOf r n @ (if mt_name mt = n then [h] else [])"
    using handlersOf_register_rw [of mt h rw ti r n] by auto
  with Cons.IH [OF rest] q show ?case by simp
qed

lemma registerAll_rw_resolved:
  "registerAll_rw qs r = (Inr (), r') \<Longrightarrow>
   resolveCustomHandlers m r' =
     resolveCustomHandlers m r @ [h. (mt, h, rw, ti) \<leftarrow> qs, accepts rw m]"
proof (induction qs arbitrary: r)
  case Nil
  then show ?case by simp
next
  case (Cons q qs)
  obtain mt h rw ti where q: "q = (mt, h, rw, ti)" by (cases q)
  obtain res r1 where reg: "register_rw mt h rw ti r = (res, r1)" by (cases "register_rw mt h rw ti r")
  from Cons.prems q reg have rest: "registerAll_rw qs r1 = (Inr (), r')"
    by (auto split: sum.splits)
  from reg have "resolveCustomHandlers m r1 =
      resolveCustomHandlers m r @ (if accepts rw m then [h] else [])"
    using resolvers_register_rw [of mt h rw ti r]
    by (cases rw) (auto simp: resolveCustomHandlers_def)
  with Cons.IH [OF rest] q show ?case by simp
qed

lemma registerAll_handlersOf:
  "registerAll qs r = (Inr (), r') \<Longrightarrow>
   handlersOf r' n = handlersOf r n @ [h. (mt, h, rw, ti) \<leftarrow> qs, mt_name mt = n]"
proof (induction qs arbitrary: r)
  case Nil
  then show ?case by simp
next
  case (Cons q qs)
  obtain mt h rw ti where q: "q = (mt, h, rw, ti)" by (cases q)
  obtain res r1 where reg: "register mt h rw ti r = (res, r1)" by (cases "register mt h rw ti r")
  from Cons.prems q reg have ok: "res = Inr ()" and rest: "registerAll qs r1 = (Inr (), r')"
    by (auto split: sum.splits)
  from reg ok have "h \<notin> set (handlersOf r (mt_name mt)) \<and> readRegistry r (mt_name mt) \<noteq> Inherited"
    using fst_register [of mt h rw ti r] by (auto split: if_splits)
  with reg have "handlersOf r1 n = handlersOf r n @ (if mt_name mt = n then [h] else [])"
    using handlersOf_register [of mt h rw ti r n] by auto
  with Cons.IH [OF rest] q show ?case by simp
qed

lemma resolveCustomHandlers_new [simp]: "resolveCustomHandlers m newHandlerRegistry = []"
  by (simp add: resolveCustomHandlers_def newHandlerRegistry_def)

lemma resolvers_get_rw [simp]:
  "handlerResolvers (snd (get_rw m r)) = handlerResolvers r"
  by (auto simp: get_rw_def Let_def split: option.splits)


lemmas ex_defs = ex_h1_def ex_h2_def ex_typeA_def ex_typeB_def ex_typeEmpty_def
  ex_typeToString_def ex_msgA_def
  ex_msgB_def ex_msgEmpty_def ex_isA_def ex_isB_def ex_requests_def ex_plainRequests_def
  ex_registry_def ex_registry_rw_def

lemmas registry_defs = register_def register_rw_def Let_def pushResolver_def ensureEntry_def
  checkAndPush_def readRegistry_def pushHandler_def handlersOf_def resolveCustomHandlers_def
  newHandlerRegistry_def get_def get_rw_def reset_def reset_rw_def objectPrototypeNames_def
  readsInherited_def messageHandlersOf_def

subsection \<open>Duplicate registrations\<close>

text \<open>
  Claim C6. In both variants, \<open>register\<close> raises \<open>HandlerAlreadyRegistered\<close> (with the name of
  the handler) if and only if the same handler function is already in the handler list of
  the message name. When it is not, \<open>register\<close> returns normally and appends the handler to
  that list, unless the message name reads a member inherited from \<open>Object.prototype\<close>, where
  it throws a \<open>TypeError\<close> and stores nothing. In every registry state that the operations
  can produce, no handler list holds the same handler function twice.
\<close>

theorem register_duplicate_check:
  "((\<exists>x. fst (register mt h rw ti r) = Inl (HandlerAlreadyRegistered x))
      = (h \<in> set (handlersOf r (mt_name mt)))) \<and>
   ((\<exists>x. fst (register_rw mt h rw ti r) = Inl (HandlerAlreadyRegistered x))
      = (h \<in> set (handlersOf r (mt_name mt)))) \<and>
   (fst (register mt h rw ti r) =
      (if h \<in> set (handlersOf r (mt_name mt))
       then Inl (HandlerAlreadyRegistered (handler_name h))
       else if readRegistry r (mt_name mt) = Inherited then Inl TypeError
       else Inr ())) \<and>
   (fst (register_rw mt h rw ti r) =
      (if h \<in> set (handlersOf r (mt_name mt))
       then Inl (HandlerAlreadyRegistered (handler_name h))
       else if readRegistry r (mt_name mt) = Inherited then Inl TypeError
       else Inr ())) \<and>
   (handlersOf (snd (register mt h rw ti r)) n =
      (if n = mt_name mt \<and> fst (register mt h rw ti r) = Inr ()
       then handlersOf r n @ [h] else handlersOf r n)) \<and>
   (handlersOf (snd (register_rw mt h rw ti r)) n =
      (if n = mt_name mt \<and> fst (register_rw mt h rw ti r) = Inr ()
       then handlersOf r n @ [h] else handlersOf r n)) \<and>
   (reachable r \<longrightarrow> distinct (handlersOf r n)) \<and>
   (reachable_rw r \<longrightarrow> distinct (handlersOf r n))"
proof (intro conjI impI)
  show "(\<exists>x. fst (register mt h rw ti r) = Inl (HandlerAlreadyRegistered x))
      = (h \<in> set (handlersOf r (mt_name mt)))"
    by (simp add: fst_register)
  show "(\<exists>x. fst (register_rw mt h rw ti r) = Inl (HandlerAlreadyRegistered x))
      = (h \<in> set (handlersOf r (mt_name mt)))"
    by (simp add: fst_register_rw)
  show "fst (register mt h rw ti r) =
      (if h \<in> set (handlersOf r (mt_name mt))
       then Inl (HandlerAlreadyRegistered (handler_name h))
       else if readRegistry r (mt_name mt) = Inherited then Inl TypeError
       else Inr ())"
    by (rule fst_register)
  show "fst (register_rw mt h rw ti r) =
      (if h \<in> set (handlersOf r (mt_name mt))
       then Inl (HandlerAlreadyRegistered (handler_name h))
       else if readRegistry r (mt_name mt) = Inherited then Inl TypeError
       else Inr ())"
    by (rule fst_register_rw)
  show "handlersOf (snd (register mt h rw ti r)) n =
      (if n = mt_name mt \<and> fst (register mt h rw ti r) = Inr ()
       then handlersOf r n @ [h] else handlersOf r n)"
    by (simp add: handlersOf_register fst_register)
  show "handlersOf (snd (register_rw mt h rw ti r)) n =
      (if n = mt_name mt \<and> fst (register_rw mt h rw ti r) = Inr ()
       then handlersOf r n @ [h] else handlersOf r n)"
    by (simp add: handlersOf_register_rw fst_register_rw)
  show "distinct (handlersOf r n)" if "reachable r"
    using that by (rule reachable_distinct)
  show "distinct (handlersOf r n)" if "reachable_rw r"
    using that by (rule reachable_rw_distinct)
qed

text \<open>
  The theorem at a registry that holds \<open>h1\<close> under \<open>A\<close>: registering \<open>h1\<close> again raises,
  registering \<open>h2\<close> does not and appends it; and at a message type named \<open>toString\<close>.
\<close>

theorem register_duplicate_check_witness:
  "reachable ex_registry \<and>
   fst (register ex_typeA ex_h1 None None ex_registry) = Inl (HandlerAlreadyRegistered ''h1'') \<and>
   fst (register ex_typeA ex_h2 None None ex_registry) = Inr () \<and>
   handlersOf (snd (register ex_typeA ex_h2 None None ex_registry)) ''A'' = [ex_h1, ex_h2] \<and>
   distinct (handlersOf ex_registry ''A'') \<and>
   fst (register ex_typeToString ex_h1 None None newHandlerRegistry) = Inl TypeError \<and>
   reachable_rw ex_registry_rw \<and>
   fst (register_rw ex_typeA ex_h1 None None ex_registry_rw)
     = Inl (HandlerAlreadyRegistered ''h1'') \<and>
   distinct (handlersOf ex_registry_rw ''A'')"
proof -
  have r: "reachable ex_registry"
    unfolding ex_registry_def by (rule reachable_register [OF reachable_new])
  have r': "reachable_rw ex_registry_rw"
    unfolding ex_registry_rw_def by (rule reachable_rw_register [OF reachable_rw_new])
  have m: "handlersOf ex_registry (mt_name ex_typeA) = [ex_h1]"
    "handlersOf ex_registry_rw (mt_name ex_typeA) = [ex_h1]"
    "readRegistry ex_registry (mt_name ex_typeA) \<noteq> Inherited"
    "mt_name ex_typeA = ''A''" "ex_h2 \<noteq> ex_h1"
    "readRegistry newHandlerRegistry (mt_name ex_typeToString) = Inherited"
    by (simp_all add: ex_defs registry_defs)
  show ?thesis
    using r r' m
      register_duplicate_check [of ex_typeA ex_h1 None None ex_registry "''A''"]
      register_duplicate_check [of ex_typeA ex_h2 None None ex_registry "''A''"]
      register_duplicate_check [of ex_typeA ex_h1 None None ex_registry_rw "''A''"]
      register_duplicate_check [of ex_typeToString ex_h1 None None newHandlerRegistry "''A''"]
    by (simp add: ex_h1_def)
qed

subsection \<open>Resolution of handlers\<close>

text \<open>
  Claim C5, amended. In the variant that records resolvers, for a message whose \<open>$name\<close>
  does not read a member inherited from \<open>Object.prototype\<close>, \<open>get\<close> returns the handler list
  stored under the message's \<open>$name\<close>, when the name is present, not empty and registered,
  followed by the handlers of the recorded resolvers whose predicate accepts the message.
  After a run of successful registrations these are the handlers registered under the
  message's \<open>$name\<close>, in registration order, followed by the handlers whose \<open>resolveWith\<close>
  predicate accepts the message, in registration order; for a message whose \<open>$name\<close> is the
  empty string the first part is empty. In the other variant, whose \<open>get\<close> takes the
  message name, a run of successful registrations that pass no \<open>resolveWith\<close> predicate
  is followed in the same way: \<open>get\<close> returns the handlers registered under the name, in
  registration order, for a name that is not a member of \<open>Object.prototype\<close>.
\<close>

theorem get_returns_keyed_then_resolved:
  "(\<not> readsInherited m r \<longrightarrow>
      fst (get_rw m r) =
        Inr ((case msg_name m of None \<Rightarrow> []
              | Some k \<Rightarrow> if k = [] then [] else handlersOf r k)
             @ resolveCustomHandlers m r)) \<and>
   (registerAll_rw qs newHandlerRegistry = (Inr (), r) \<and> \<not> readsInherited m r \<longrightarrow>
      fst (get_rw m r) =
        Inr ((if msg_name m = Some [] then []
              else [h. (mt, h, rw, ti) \<leftarrow> qs, Some (mt_name mt) = msg_name m])
             @ [h. (mt, h, rw, ti) \<leftarrow> qs, accepts rw m])) \<and>
   (registerAll qs newHandlerRegistry = (Inr (), r) \<and>
    (\<forall>q \<in> set qs. resolveWithOf q = None) \<and> n \<notin> set objectPrototypeNames \<longrightarrow>
      fst (get n r) = Some [h. (mt, h, rw, ti) \<leftarrow> qs, mt_name mt = n])"
proof (intro conjI impI)
  assume "\<not> readsInherited m r"
  then show "fst (get_rw m r) =
        Inr ((case msg_name m of None \<Rightarrow> []
              | Some k \<Rightarrow> if k = [] then [] else handlersOf r k)
             @ resolveCustomHandlers m r)"
    by (rule fst_get_rw)
next
  assume a: "registerAll_rw qs newHandlerRegistry = (Inr (), r) \<and> \<not> readsInherited m r"
  then have b: "registerAll_rw qs newHandlerRegistry = (Inr (), r)"
    and c: "\<not> readsInherited m r" by simp_all
  show "fst (get_rw m r) =
        Inr ((if msg_name m = Some [] then []
              else [h. (mt, h, rw, ti) \<leftarrow> qs, Some (mt_name mt) = msg_name m])
             @ [h. (mt, h, rw, ti) \<leftarrow> qs, accepts rw m])"
    using registerAll_rw_handlersOf [OF b] registerAll_rw_resolved [OF b, of m]
    by (cases "msg_name m") (simp_all add: fst_get_rw [OF c])
next
  assume a: "registerAll qs newHandlerRegistry = (Inr (), r) \<and>
    (\<forall>q \<in> set qs. resolveWithOf q = None) \<and> n \<notin> set objectPrototypeNames"
  then have b: "registerAll qs newHandlerRegistry = (Inr (), r)"
    and c: "\<forall>q \<in> set qs. resolveWithOf q = None"
    and d: "n \<notin> set objectPrototypeNames" by simp_all
  show "fst (get n r) = Some [h. (mt, h, rw, ti) \<leftarrow> qs, mt_name mt = n]"
    using registerAll_handlersOf [OF b, of n] by (simp add: fst_get_plain [OF d])
qed

text \<open>
  The theorem at two registrations: \<open>h1\<close> under \<open>A\<close>, and \<open>h2\<close> under \<open>B\<close>, in the variant
  that records resolvers with a predicate that accepts the messages named \<open>A\<close>.
\<close>

theorem get_returns_keyed_then_resolved_witness:
  "registerAll_rw ex_requests newHandlerRegistry
     = (Inr (), snd (registerAll_rw ex_requests newHandlerRegistry)) \<and>
   \<not> readsInherited ex_msgA (snd (registerAll_rw ex_requests newHandlerRegistry)) \<and>
   fst (get_rw ex_msgA (snd (registerAll_rw ex_requests newHandlerRegistry)))
     = Inr [ex_h1, ex_h2] \<and>
   registerAll ex_plainRequests newHandlerRegistry
     = (Inr (), snd (registerAll ex_plainRequests newHandlerRegistry)) \<and>
   fst (get ''B'' (snd (registerAll ex_plainRequests newHandlerRegistry))) = Some [ex_h2]"
proof -
  have a: "registerAll_rw ex_requests newHandlerRegistry
     = (Inr (), snd (registerAll_rw ex_requests newHandlerRegistry))"
    by (simp add: ex_defs registry_defs)
  have b: "registerAll ex_plainRequests newHandlerRegistry
     = (Inr (), snd (registerAll ex_plainRequests newHandlerRegistry))"
    by (simp add: ex_defs registry_defs)
  have c: "\<not> readsInherited ex_msgA (snd (registerAll_rw ex_requests newHandlerRegistry))"
    by (simp add: ex_defs registry_defs)
  have d: "\<forall>q \<in> set ex_plainRequests. resolveWithOf q = None"
    "''B'' \<notin> set objectPrototypeNames"
    by (simp_all add: ex_plainRequests_def objectPrototypeNames_def)
  show ?thesis
    using a b c d
      get_returns_keyed_then_resolved [of ex_msgA
        "snd (registerAll_rw ex_requests newHandlerRegistry)" ex_requests
        "''B''", THEN conjunct2, THEN conjunct1]
      get_returns_keyed_then_resolved [of ex_msgA
        "snd (registerAll ex_plainRequests newHandlerRegistry)" ex_plainRequests
        "''B''", THEN conjunct2, THEN conjunct2]
    by (simp add: ex_requests_def ex_plainRequests_def ex_msgA_def ex_typeA_def ex_typeB_def
        ex_isA_def)
qed

text \<open>
  Claim C5 as stated fails for a message type whose \<open>$name\<close> is the empty string: \<open>h1\<close> is
  registered under that name, and \<open>get\<close> returns no handler for a message that carries it.
\<close>

theorem get_empty_name_counterexample:
  "fst (get_rw ex_msgEmpty (snd (register_rw ex_typeEmpty ex_h1 None None newHandlerRegistry)))
   \<noteq> Inr (handlersOf (snd (register_rw ex_typeEmpty ex_h1 None None newHandlerRegistry)) []
     @ resolveCustomHandlers ex_msgEmpty
        (snd (register_rw ex_typeEmpty ex_h1 None None newHandlerRegistry)))"
  by (simp add: ex_defs registry_defs)



subsection \<open>Reset\<close>

lemma fst_get_reset:
  "n \<notin> set objectPrototypeNames \<Longrightarrow> fst (get n (reset r)) = Some []"
  by (simp add: get_def reset_def readRegistry_def)

lemma fst_get_rw_reset:
  "resolveCustomHandlers m r = [] \<Longrightarrow> \<not> readsInherited m (reset_rw r) \<Longrightarrow>
   fst (get_rw m (reset_rw r)) = Inr []"
proof -
  assume a: "resolveCustomHandlers m r = []" and b: "\<not> readsInherited m (reset_rw r)"
  have "resolveCustomHandlers m (reset_rw r) = []"
    using a by (simp add: resolveCustomHandlers_def reset_rw_def)
  then show ?thesis
    by (cases "msg_name m") (simp_all add: fst_get_rw [OF b])
qed

text \<open>
  Claim C8, amended. \<open>reset\<close> empties the name-keyed registrations: afterwards no message
  name has an entry or a handler, \<open>get\<close> by name returns the empty list for a name that is
  not a member of \<open>Object.prototype\<close>, and in the variant that records resolvers \<open>get\<close>
  returns the empty list for a message that no recorded resolver accepts and whose \<open>$name\<close>
  does not read such a member. The list of unhandled message names is left as it was.
\<close>

theorem reset_clears_registrations:
  "registry (reset r) = [] \<and> handlersOf (reset r) n = [] \<and>
   (n \<notin> set objectPrototypeNames \<longrightarrow> fst (get n (reset r)) = Some []) \<and>
   unhandledMessages (reset r) = unhandledMessages r \<and>
   registry (reset_rw r) = [] \<and> handlersOf (reset_rw r) n = [] \<and>
   (resolveCustomHandlers m r = [] \<and> \<not> readsInherited m (reset_rw r) \<longrightarrow>
      fst (get_rw m (reset_rw r)) = Inr []) \<and>
   unhandledMessages (reset_rw r) = unhandledMessages r"
  by (simp add: fst_get_reset fst_get_rw_reset) (simp add: reset_def reset_rw_def)

text \<open>
  The theorem at the registry that holds \<open>h1\<close> under \<open>A\<close>, where \<open>get\<close> has recorded the
  unhandled name \<open>B\<close>.
\<close>

theorem reset_clears_registrations_witness:
  "''A'' \<notin> set objectPrototypeNames \<and>
   fst (get ''A'' ex_registry) = Some [ex_h1] \<and>
   fst (get ''A'' (reset ex_registry)) = Some [] \<and>
   resolveCustomHandlers ex_msgA (snd (get_rw ex_msgB ex_registry_rw)) = [] \<and>
   \<not> readsInherited ex_msgA (reset_rw (snd (get_rw ex_msgB ex_registry_rw))) \<and>
   fst (get_rw ex_msgA (snd (get_rw ex_msgB ex_registry_rw))) = Inr [ex_h1] \<and>
   fst (get_rw ex_msgA (reset_rw (snd (get_rw ex_msgB ex_registry_rw)))) = Inr [] \<and>
   unhandledMessages (reset_rw (snd (get_rw ex_msgB ex_registry_rw))) = [''B'']"
proof -
  have a: "''A'' \<notin> set objectPrototypeNames"
    "fst (get ''A'' ex_registry) = Some [ex_h1]"
    "resolveCustomHandlers ex_msgA (snd (get_rw ex_msgB ex_registry_rw)) = []"
    "\<not> readsInherited ex_msgA (reset_rw (snd (get_rw ex_msgB ex_registry_rw)))"
    "fst (get_rw ex_msgA (snd (get_rw ex_msgB ex_registry_rw))) = Inr [ex_h1]"
    "unhandledMessages (snd (get_rw ex_msgB ex_registry_rw)) = [''B'']"
    by (simp_all add: ex_defs registry_defs)
  show ?thesis
    using a
      reset_clears_registrations [of ex_registry "''A''" ex_msgA]
      reset_clears_registrations [of "snd (get_rw ex_msgB ex_registry_rw)" "''A''" ex_msgA]
    by simp
qed

text \<open>
  Claim C8 as stated fails: after \<open>get\<close> has recorded the unhandled name \<open>A\<close>, the list of
  unhandled message names is not empty after \<open>reset\<close>.
\<close>

theorem reset_keeps_unhandled_counterexample:
  "unhandledMessages (reset_rw (snd (get_rw ex_msgA newHandlerRegistry))) \<noteq> []"
  by (simp add: ex_defs registry_defs)

section \<open>Properties of the persistence\<close>

lemmas ex2_defs = ex_newState_def ex_stateType_def ex_twinType_def ex_otherType_def
  ex_attrs_def ex_lookup_def ex_mapping_def ex_dataMapping_def ex_order_def ex_stored_def
  ex_completed_def ex_other_def ex_stale_def ex_first_def ex_store_def ex_initialized_def
  ex_id1_def ex_id2_def ex_id3_def

lemmas ex_pg_defs = ex_pg_def ex_uuid_in_def ex_jsonb_text_def ex_toClass_def ex_dataX_def
  ex_dataDone_def ex_dataY_def ex_row_def ex_rows_def

lemmas storage_defs = readStorage_def writeRows_def initializeWorkflow_def
  newWorkflowStorage_def objectPrototypeNames_def Let_def

lemma strictEquals_Some: "strictEquals v (Some k) = (v = Some (VStr k))"
  by (cases "(v, Some k)" rule: strictEquals.cases) auto

subsection \<open>Storage that has not been initialized\<close>

text \<open>
  A name is blank in a storage when the object has no own property of that name and still
  has \<open>Object.prototype\<close> as its prototype.
\<close>

lemma blank_Falsy:
  "map_of (ws_own store) n = None \<Longrightarrow> ws_proto store = None \<Longrightarrow>
   n \<notin> set objectPrototypeNames \<Longrightarrow> readStorage iap store n = Falsy"
  by (simp add: readStorage_def)

lemma saveWorkflowState_blank:
  "saveWorkflowState iap s store = Inr store' \<Longrightarrow>
   map_of (ws_own store) n = None \<Longrightarrow> ws_proto store = None \<Longrightarrow>
   map_of (ws_own store') n = None \<and> ws_proto store' = None"
  by (auto simp: saveWorkflowState_def readStorage_def writeRows_def Let_def update_conv'
      split: option.splits StorageValue.splits if_splits)

lemma initializeWorkflow_blank:
  "initializeWorkflow st ms store = Inr store' \<Longrightarrow>
   map_of (ws_own store) n = None \<Longrightarrow> ws_proto store = None \<Longrightarrow>
   s_name (st_new st) \<noteq> n \<Longrightarrow> s_name (st_new st) \<noteq> ''__proto__'' \<Longrightarrow>
   map_of (ws_own store') n = None \<and> ws_proto store' = None"
  by (auto simp: initializeWorkflow_def Let_def update_conv' split: if_splits)

lemma afterCalls_blank:
  "map_of (ws_own store) n = None \<Longrightarrow> ws_proto store = None \<Longrightarrow>
   \<forall>st ms. InitializeWorkflow st ms \<in> set calls \<longrightarrow>
     s_name (st_new st) \<noteq> n \<and> s_name (st_new st) \<noteq> ''__proto__'' \<Longrightarrow>
   map_of (ws_own (afterCalls iap calls store)) n = None \<and>
   ws_proto (afterCalls iap calls store) = None"
proof (induction calls arbitrary: store)
  case Nil
  then show ?case by simp
next
  case (Cons c calls)
  from Cons.prems(3) have rest:
    "\<forall>st ms. InitializeWorkflow st ms \<in> set calls \<longrightarrow>
       s_name (st_new st) \<noteq> n \<and> s_name (st_new st) \<noteq> ''__proto__''"
    by auto
  show ?case
  proof (cases c)
    case (InitializeWorkflow st ms)
    with Cons.prems(3) have ne: "s_name (st_new st) \<noteq> n" "s_name (st_new st) \<noteq> ''__proto__''"
      by auto
    show ?thesis
    proof (cases "initializeWorkflow st ms store")
      case (Inl e)
      with InitializeWorkflow Cons.IH [OF Cons.prems(1,2) rest] show ?thesis by simp
    next
      case (Inr store')
      from initializeWorkflow_blank [OF Inr Cons.prems(1,2) ne]
      have "map_of (ws_own store') n = None" "ws_proto store' = None" by simp_all
      from Cons.IH [OF this rest] InitializeWorkflow Inr show ?thesis by simp
    qed
  next
    case (SaveWorkflowState s)
    show ?thesis
    proof (cases "saveWorkflowState iap s store")
      case (Inl e)
      with SaveWorkflowState Cons.IH [OF Cons.prems(1,2) rest] show ?thesis by simp
    next
      case (Inr store')
      from saveWorkflowState_blank [OF Inr Cons.prems(1,2)]
      have "map_of (ws_own store') n = None" "ws_proto store' = None" by simp_all
      from Cons.IH [OF this rest] SaveWorkflowState Inr show ?thesis by simp
    qed
  qed
qed

lemma getWorkflowState_NotInitialized:
  "\<not> falsy (lookup messageMap message context) \<Longrightarrow>
   (getWorkflowState iap ctor messageMap message context includeCompleted store =
      Inl (WorkflowStateNotInitialized ''Workflow data not initialized''))
   = (readStorage iap store (s_name (st_new ctor)) = Falsy)"
  by (simp add: getWorkflowState_def Let_def split: StorageValue.splits)

text \<open>
  Claim C9, amended. In the in-memory persistence, \<open>getWorkflowState\<close> with a lookup key that
  is not falsy throws \<open>WorkflowStateNotInitialized\<close>, and does not return a list, exactly when
  the storage object holds no truthy value under the \<open>$name\<close> of the state type. It does so
  after any run of calls on a new persistence in which \<open>initializeWorkflow\<close> has not been
  called for a state type with that \<open>$name\<close>, where the \<open>$name\<close> is not a member of
  \<open>Object.prototype\<close> and no state type named \<open>__proto__\<close> has been initialized.
\<close>

theorem getWorkflowState_uninitialized:
  "\<not> falsy (lookup messageMap message context) \<Longrightarrow>
   ((getWorkflowState iap ctor messageMap message context includeCompleted store =
       Inl (WorkflowStateNotInitialized ''Workflow data not initialized''))
    = (readStorage iap store (s_name (st_new ctor)) = Falsy)) \<and>
   (s_name (st_new ctor) \<notin> set objectPrototypeNames \<and>
    (\<forall>st ms. InitializeWorkflow st ms \<in> set calls \<longrightarrow>
        s_name (st_new st) \<noteq> s_name (st_new ctor) \<and> s_name (st_new st) \<noteq> ''__proto__'') \<longrightarrow>
      getWorkflowState iap ctor messageMap message context includeCompleted
        (afterCalls iap calls newWorkflowStorage) =
        Inl (WorkflowStateNotInitialized ''Workflow data not initialized''))"
proof (intro conjI impI)
  assume k: "\<not> falsy (lookup messageMap message context)"
  then show "(getWorkflowState iap ctor messageMap message context includeCompleted store =
       Inl (WorkflowStateNotInitialized ''Workflow data not initialized''))
    = (readStorage iap store (s_name (st_new ctor)) = Falsy)"
    by (rule getWorkflowState_NotInitialized)
  assume a: "s_name (st_new ctor) \<notin> set objectPrototypeNames \<and>
    (\<forall>st ms. InitializeWorkflow st ms \<in> set calls \<longrightarrow>
        s_name (st_new st) \<noteq> s_name (st_new ctor) \<and> s_name (st_new st) \<noteq> ''__proto__'')"
  then have "map_of (ws_own (afterCalls iap calls newWorkflowStorage)) (s_name (st_new ctor)) = None
    \<and> ws_proto (afterCalls iap calls newWorkflowStorage) = None"
    by (intro afterCalls_blank) (simp_all add: newWorkflowStorage_def)
  with a have "readStorage iap (afterCalls iap calls newWorkflowStorage) (s_name (st_new ctor))
    = Falsy"
    by (simp add: blank_Falsy)
  then show "getWorkflowState iap ctor messageMap message context includeCompleted
        (afterCalls iap calls newWorkflowStorage) =
        Inl (WorkflowStateNotInitialized ''Workflow data not initialized'')"
    by (simp add: getWorkflowState_NotInitialized [OF k])
qed

text \<open>
  The theorem at the storage of a new persistence, and after \<open>initializeWorkflow\<close> for
  another state type and a save, with a message whose \<open>orderId\<close> is \<open>X\<close>.
\<close>

theorem getWorkflowState_uninitialized_witness:
  "\<not> falsy (lookup ex_mapping ex_order ex_attrs) \<and>
   readStorage ex_inArrayPrototype newWorkflowStorage (s_name (st_new ex_stateType)) = Falsy \<and>
   getWorkflowState ex_inArrayPrototype ex_stateType ex_mapping ex_order ex_attrs None
     newWorkflowStorage =
     Inl (WorkflowStateNotInitialized ''Workflow data not initialized'') \<and>
   getWorkflowState ex_inArrayPrototype ex_stateType ex_mapping ex_order ex_attrs None
     (afterCalls ex_inArrayPrototype
        [InitializeWorkflow ex_otherType [], SaveWorkflowState ex_stored] newWorkflowStorage) =
     Inl (WorkflowStateNotInitialized ''Workflow data not initialized'')"
proof -
  have a: "readStorage ex_inArrayPrototype newWorkflowStorage (s_name (st_new ex_stateType))
    = Falsy"
    by (simp add: storage_defs ex2_defs)
  have b: "\<not> falsy (lookup ex_mapping ex_order ex_attrs)" by (simp add: ex2_defs)
  have c: "s_name (st_new ex_stateType) \<notin> set objectPrototypeNames \<and>
    (\<forall>st ms. InitializeWorkflow st ms
        \<in> set [InitializeWorkflow ex_otherType [], SaveWorkflowState ex_stored] \<longrightarrow>
        s_name (st_new st) \<noteq> s_name (st_new ex_stateType)
        \<and> s_name (st_new st) \<noteq> ''__proto__'')"
    by (simp add: ex2_defs objectPrototypeNames_def)
  show ?thesis
    using a b c
      getWorkflowState_uninitialized [OF b, of ex_inArrayPrototype ex_stateType None
        newWorkflowStorage
        "[InitializeWorkflow ex_otherType [], SaveWorkflowState ex_stored]"]
    by simp
qed

text \<open>
  Claim C9 as stated fails for a state type that shares its \<open>$name\<close> with another one:
  \<open>initializeWorkflow\<close> has been called for \<open>TestState\<close> only, and \<open>getWorkflowState\<close> for the
  class \<open>TwinState\<close>, whose instances are named \<open>TestState\<close> too, returns the empty list
  for a key that is not falsy.
\<close>

theorem getWorkflowState_twin_counterexample:
  "ex_twinType \<noteq> ex_stateType \<and>
   \<not> falsy (lookup ex_mapping ex_order ex_attrs) \<and>
   getWorkflowState ex_inArrayPrototype ex_twinType ex_mapping ex_order ex_attrs None
     (afterCalls ex_inArrayPrototype [InitializeWorkflow ex_stateType []] newWorkflowStorage)
     = Inr []"
  by (simp add: getWorkflowState_def storage_defs ex2_defs)

subsection \<open>Reading workflow states\<close>

lemma getWorkflowState_falsy:
  "falsy (lookup messageMap message context) \<Longrightarrow>
   getWorkflowState iap ctor messageMap message context includeCompleted store = Inr []"
  by (simp add: getWorkflowState_def)

lemma getWorkflowState_Rows:
  "lookup messageMap message context = Some k \<Longrightarrow> k \<noteq> [] \<Longrightarrow>
   readStorage iap store (s_name (st_new ctor)) = Rows rows \<Longrightarrow>
   getWorkflowState iap ctor messageMap message context includeCompleted store =
     Inr (filter (\<lambda>s. getProp s (mapsTo messageMap) = Some (VStr k) \<and>
                      (includeCompleted = Some True \<or> s_status s = Running)) rows)"
  by (auto simp: getWorkflowState_def Let_def strictEquals_Some intro: filter_cong)

lemma getWorkflowData_undefined:
  "staysQuoted (workflowDataProperty dataMap) \<Longrightarrow>
   lookupMessage dataMap message context = None \<Longrightarrow>
   getWorkflowData pg ctor dataMap message context includeCompleted trows = Inr []"
  by (simp add: getWorkflowData_def Let_def selected_def)

lemma getWorkflowData_rows:
  "staysQuoted (workflowDataProperty dataMap) \<Longrightarrow>
   lookupMessage dataMap message context = Some k \<Longrightarrow> validText k \<Longrightarrow>
   getWorkflowData pg ctor dataMap message context includeCompleted trows =
     Inr (map (\<lambda>r. pg_toClass pg (row_data r) ctor)
            (filter (\<lambda>r. pg_jsonb_text pg (row_data r) (workflowDataProperty dataMap) = Some k \<and>
                         (includeCompleted = Some True \<or>
                          pg_jsonb_text pg (row_data r) ''$status'' = Some ''running''))
               trows))"
proof -
  assume a: "staysQuoted (workflowDataProperty dataMap)"
    and b: "lookupMessage dataMap message context = Some k" and c: "validText k"
  have "selected pg (case includeCompleted of None \<Rightarrow> False | Some b \<Rightarrow> b)
          (workflowDataProperty dataMap) (Some k)
        = (\<lambda>r. pg_jsonb_text pg (row_data r) (workflowDataProperty dataMap) = Some k \<and>
           (includeCompleted = Some True \<or>
            pg_jsonb_text pg (row_data r) ''$status'' = Some ''running''))"
    by (rule ext, cases includeCompleted) (auto simp: selected_def)
  with a b c show ?thesis
    by (simp add: getWorkflowData_def Let_def)
qed

text \<open>
  Claim C7, amended. The in-memory \<open>getWorkflowState\<close> returns the empty list when the key
  that the lookup function of the mapping computes is falsy; the Postgres \<open>getWorkflowData\<close>
  does so when the key is \<open>undefined\<close>. When the key is a string that is not empty and the
  storage of the state type has been initialized, the result is exactly the stored rows,
  in stored order, whose \<open>state[mapsTo]\<close> equals the key and whose \<open>$status\<close> is \<open>Running\<close>;
  with \<open>includeCompleted\<close> set to true the status is not looked at. In the in-memory
  persistence the storage is the array under the \<open>$name\<close> of the state type; in the Postgres
  persistence it is the table of the state type, the rows are compared by the text of the
  property and returned through \<open>toClass\<close>, the key is a text that the database accepts, and
  the property name stays inside the quotes of the query.
\<close>

theorem getWorkflowState_rows:
  "(falsy (lookup messageMap message context) \<longrightarrow>
      getWorkflowState iap ctor messageMap message context includeCompleted store = Inr []) \<and>
   (lookup messageMap message context = Some k \<and> k \<noteq> [] \<and>
    readStorage iap store (s_name (st_new ctor)) = Rows rows \<longrightarrow>
      getWorkflowState iap ctor messageMap message context includeCompleted store =
        Inr (filter (\<lambda>s. getProp s (mapsTo messageMap) = Some (VStr k) \<and>
                         (includeCompleted = Some True \<or> s_status s = Running)) rows)) \<and>
   (staysQuoted (workflowDataProperty dataMap) \<and>
    lookupMessage dataMap message context = None \<longrightarrow>
      getWorkflowData pg ctor dataMap message context includeCompleted trows = Inr []) \<and>
   (staysQuoted (workflowDataProperty dataMap) \<and>
    lookupMessage dataMap message context = Some k \<and> k \<noteq> [] \<and> validText k \<longrightarrow>
      getWorkflowData pg ctor dataMap message context includeCompleted trows =
        Inr (map (\<lambda>r. pg_toClass pg (row_data r) ctor)
               (filter (\<lambda>r. pg_jsonb_text pg (row_data r) (workflowDataProperty dataMap) = Some k \<and>
                            (includeCompleted = Some True \<or>
                             pg_jsonb_text pg (row_data r) ''$status'' = Some ''running''))
                  trows)))"
proof (intro conjI impI)
  show "getWorkflowState iap ctor messageMap message context includeCompleted store = Inr []"
    if "falsy (lookup messageMap message context)"
    using that by (rule getWorkflowState_falsy)
  show "getWorkflowState iap ctor messageMap message context includeCompleted store =
        Inr (filter (\<lambda>s. getProp s (mapsTo messageMap) = Some (VStr k) \<and>
                         (includeCompleted = Some True \<or> s_status s = Running)) rows)"
    if "lookup messageMap message context = Some k \<and> k \<noteq> [] \<and>
        readStorage iap store (s_name (st_new ctor)) = Rows rows"
    using that by (simp add: getWorkflowState_Rows)
  show "getWorkflowData pg ctor dataMap message context includeCompleted trows = Inr []"
    if "staysQuoted (workflowDataProperty dataMap) \<and>
        lookupMessage dataMap message context = None"
    using that by (simp add: getWorkflowData_undefined)
  show "getWorkflowData pg ctor dataMap message context includeCompleted trows =
        Inr (map (\<lambda>r. pg_toClass pg (row_data r) ctor)
               (filter (\<lambda>r. pg_jsonb_text pg (row_data r) (workflowDataProperty dataMap) = Some k \<and>
                            (includeCompleted = Some True \<or>
                             pg_jsonb_text pg (row_data r) ''$status'' = Some ''running''))
                  trows))"
    if "staysQuoted (workflowDataProperty dataMap) \<and>
        lookupMessage dataMap message context = Some k \<and> k \<noteq> [] \<and> validText k"
    using that by (simp add: getWorkflowData_rows)
qed

text \<open>
  The theorem at a storage and at a table with a running and a completed row for the key \<open>X\<close>
  and a running row for the key \<open>Y\<close>, and at a message that has no \<open>orderId\<close>.
\<close>

theorem getWorkflowState_rows_witness:
  "lookup ex_mapping ex_order ex_attrs = Some ''X'' \<and>
   readStorage ex_inArrayPrototype ex_store (s_name (st_new ex_stateType))
     = Rows [ex_stored, ex_completed, ex_other] \<and>
   getWorkflowState ex_inArrayPrototype ex_stateType ex_mapping ex_order ex_attrs None ex_store
     = Inr [ex_stored] \<and>
   getWorkflowState ex_inArrayPrototype ex_stateType ex_mapping ex_order ex_attrs (Some True)
     ex_store = Inr [ex_stored, ex_completed] \<and>
   falsy (lookup ex_mapping ex_msgA ex_attrs) \<and>
   getWorkflowState ex_inArrayPrototype ex_stateType ex_mapping ex_msgA ex_attrs None ex_store
     = Inr [] \<and>
   staysQuoted (workflowDataProperty ex_dataMapping) \<and> validText ''X'' \<and>
   getWorkflowData ex_pg ex_stateType ex_dataMapping ex_order ex_attrs None ex_rows
     = Inr [ex_toClass ex_dataX ex_stateType] \<and>
   getWorkflowData ex_pg ex_stateType ex_dataMapping ex_order ex_attrs (Some True) ex_rows
     = Inr [ex_toClass ex_dataX ex_stateType, ex_toClass ex_dataDone ex_stateType] \<and>
   getWorkflowData ex_pg ex_stateType ex_dataMapping ex_msgA ex_attrs None ex_rows = Inr []"
proof -
  have a: "lookup ex_mapping ex_order ex_attrs = Some ''X''"
    "lookupMessage ex_dataMapping ex_order ex_attrs = Some ''X''"
    by (simp_all add: ex2_defs)
  have b: "readStorage ex_inArrayPrototype ex_store (s_name (st_new ex_stateType))
     = Rows [ex_stored, ex_completed, ex_other]" by (simp add: ex2_defs storage_defs)
  have c: "falsy (lookup ex_mapping ex_msgA ex_attrs)"
    "lookupMessage ex_dataMapping ex_msgA ex_attrs = None"
    by (simp_all add: ex2_defs ex_msgA_def)
  have q: "staysQuoted (workflowDataProperty ex_dataMapping)" "validText ''X''"
    by (simp_all add: staysQuoted_def validText_def ex2_defs)
  have p: "getProp ex_stored ''orderId'' = Some (VStr ''X'')"
    "getProp ex_completed ''orderId'' = Some (VStr ''X'')"
    "getProp ex_other ''orderId'' \<noteq> Some (VStr ''X'')"
    "s_status ex_stored = Running" "s_status ex_completed \<noteq> Running"
    "mapsTo ex_mapping = ''orderId''" "workflowDataProperty ex_dataMapping = ''orderId''"
    by (simp_all add: getProp_def ex2_defs)
  have t: "pg_jsonb_text ex_pg ex_dataX ''orderId'' = Some ''X''"
    "pg_jsonb_text ex_pg ex_dataDone ''orderId'' = Some ''X''"
    "pg_jsonb_text ex_pg ex_dataY ''orderId'' \<noteq> Some ''X''"
    "pg_jsonb_text ex_pg ex_dataX ''$status'' = Some ''running''"
    "pg_jsonb_text ex_pg ex_dataDone ''$status'' \<noteq> Some ''running''"
    "pg_toClass ex_pg = ex_toClass"
    by (simp_all add: ex_pg_defs)
  have rows: "ex_rows = [\<lparr>row_id = ex_id1, row_version = 3, row_data = ex_dataX\<rparr>,
     \<lparr>row_id = ex_id2, row_version = 5, row_data = ex_dataDone\<rparr>,
     \<lparr>row_id = ex_id3, row_version = 1, row_data = ex_dataY\<rparr>]"
    by (simp add: ex_rows_def ex_row_def)
  show ?thesis
    using a b c q
      getWorkflowState_rows [of ex_mapping ex_order ex_attrs ex_inArrayPrototype ex_stateType
        None ex_store "''X''" "[ex_stored, ex_completed, ex_other]" ex_dataMapping ex_pg ex_rows]
      getWorkflowState_rows [of ex_mapping ex_order ex_attrs ex_inArrayPrototype ex_stateType
        "Some True" ex_store "''X''" "[ex_stored, ex_completed, ex_other]" ex_dataMapping ex_pg
        ex_rows]
      getWorkflowState_rows [of ex_mapping ex_msgA ex_attrs ex_inArrayPrototype ex_stateType
        None ex_store "''X''" "[ex_stored, ex_completed, ex_other]" ex_dataMapping ex_pg ex_rows]
    by (simp add: p t rows)
qed

text \<open>
  Claim C7 as stated fails where the storage of the state type has not been initialized: for a
  key that is not falsy the call throws, where the claim gives the matching stored rows.
\<close>

theorem getWorkflowState_throws_counterexample:
  "lookup ex_mapping ex_order ex_attrs = Some ''X'' \<and>
   getWorkflowState ex_inArrayPrototype ex_stateType ex_mapping ex_order ex_attrs (Some True)
     (afterCalls ex_inArrayPrototype [InitializeWorkflow ex_otherType []] newWorkflowStorage)
   = Inl (WorkflowStateNotInitialized ''Workflow data not initialized'')"
  by (simp add: getWorkflowState_def storage_defs ex2_defs)

subsection \<open>Saving a workflow state\<close>

lemma assignExisting_None:
  "(assignExisting s rows = None) = (\<forall>d \<in> set rows. s_workflowId d \<noteq> s_workflowId s)"
  by (induction rows) auto

lemma assignExisting_first:
  "\<forall>x \<in> set pre. s_workflowId x \<noteq> s_workflowId s \<Longrightarrow> s_workflowId d = s_workflowId s \<Longrightarrow>
   assignExisting s (pre @ d # post) = Some (pre @ assignState d s # post)"
  by (induction pre) auto

lemma saveWorkflowState_append:
  "readStorage iap store (s_name s) = Rows srows \<Longrightarrow>
   \<forall>d \<in> set srows. s_workflowId d \<noteq> s_workflowId s \<Longrightarrow>
   saveWorkflowState iap s store = Inr (writeRows store (s_name s) (srows @ [s]))"
  using assignExisting_None [of s srows] by (simp add: saveWorkflowState_def Let_def)

lemma saveWorkflowState_overwrite:
  "readStorage iap store (s_name s) = Rows (pre @ d # post) \<Longrightarrow>
   \<forall>x \<in> set pre. s_workflowId x \<noteq> s_workflowId s \<Longrightarrow> s_workflowId d = s_workflowId s \<Longrightarrow>
   saveWorkflowState iap s store =
     Inr (writeRows store (s_name s) (pre @ assignState d s # post))"
  by (simp add: saveWorkflowState_def Let_def assignExisting_first)

lemma saveWorkflowState_error:
  "saveWorkflowState iap s store = Inl e \<Longrightarrow> e = TypeError"
  by (auto simp: saveWorkflowState_def Let_def split: option.splits StorageValue.splits)

lemma readStorage_writeRows:
  "readStorage iap store n = Rows old \<Longrightarrow> readStorage iap (writeRows store n rows) n = Rows rows"
  by (auto simp: readStorage_def writeRows_def inheritedFromArray_def update_conv'
      split: option.splits if_splits)

lemma sqlUpdate_count:
  "sqlUpdate pg nv dat wid ov rows = Inr (c, rows') \<Longrightarrow> pg_uuid_in pg wid = Some u \<Longrightarrow>
   (c = 0) = (\<forall>r \<in> set rows. \<not> (row_id r = u \<and> row_version r = ov))"
  by (auto simp: sqlUpdate_def filter_empty_conv split: if_splits option.splits)

lemma saveWorkflowData_insert:
  "s_version s = 0 \<Longrightarrow> pg_uuid_in pg (s_workflowId s) = Some u \<Longrightarrow>
   pg_jsonb_in pg ((toPlain s)(''$version'' \<mapsto> VNum 1)) = Some j \<Longrightarrow>
   \<forall>r \<in> set rows. row_id r \<noteq> u \<Longrightarrow>
   saveWorkflowData pg schemaName s rows =
     Inr (rows @ [\<lparr>row_id = u, row_version = 1, row_data = j\<rparr>])"
  by (simp add: saveWorkflowData_def upsertWorkflowData_def sqlInsert_def Let_def int4_def)

lemma saveWorkflowData_insert_exists:
  "s_version s = 0 \<Longrightarrow> pg_uuid_in pg (s_workflowId s) = Some u \<Longrightarrow>
   \<exists>r \<in> set rows. row_id r = u \<Longrightarrow>
   saveWorkflowData pg schemaName s rows = Inl DatabaseError"
  by (simp add: saveWorkflowData_def upsertWorkflowData_def sqlInsert_def Let_def int4_def
      split: option.splits)

lemma saveWorkflowData_update:
  "s_version s \<noteq> 0 \<Longrightarrow> int4 (s_version s) \<Longrightarrow> int4 (s_version s + 1) \<Longrightarrow>
   pg_uuid_in pg (s_workflowId s) = Some u \<Longrightarrow>
   pg_jsonb_in pg ((toPlain s)(''$version'' \<mapsto> VNum (s_version s + 1))) = Some j \<Longrightarrow>
   \<exists>r \<in> set rows. row_id r = u \<and> row_version r = s_version s \<Longrightarrow>
   saveWorkflowData pg schemaName s rows =
     Inr (map (\<lambda>r. if row_id r = u \<and> row_version r = s_version s
                    then r\<lparr>row_version := s_version s + 1, row_data := j\<rparr> else r) rows)"
  by (auto simp: saveWorkflowData_def upsertWorkflowData_def sqlUpdate_def Let_def
      filter_empty_conv)

lemma saveWorkflowData_stale:
  "s_version s \<noteq> 0 \<Longrightarrow> int4 (s_version s) \<Longrightarrow> int4 (s_version s + 1) \<Longrightarrow>
   pg_uuid_in pg (s_workflowId s) = Some u \<Longrightarrow>
   pg_jsonb_in pg ((toPlain s)(''$version'' \<mapsto> VNum (s_version s + 1))) = Some j \<Longrightarrow>
   \<forall>r \<in> set rows. \<not> (row_id r = u \<and> row_version r = s_version s) \<Longrightarrow>
   saveWorkflowData pg schemaName s rows =
     Inl (WorkflowDataNotFound (s_workflowId s)
            (resolveQualifiedTableName (s_name s) schemaName) (s_version s))"
  by (auto simp: saveWorkflowData_def upsertWorkflowData_def sqlUpdate_def Let_def
      filter_empty_conv)

text \<open>
  Claim C1, amended. The Postgres persistence saves by an upsert with optimistic concurrency:
  a state with \<open>$version = 0\<close> is inserted with stored version 1 (the primary key
  rejects the insert when a row with the id exists); any other state updates the rows where
  \<open>id = $workflowId\<close> and \<open>version = $version\<close>, setting the version to \<open>$version + 1\<close>, and when
  no row has that id and version the save raises \<open>WorkflowDataNotFound(id, table, $version)\<close>.
  Here the id is one that the \<open>uuid\<close> column accepts, the state is one that the \<open>jsonb\<close>
  column accepts, and the versions are in the range of the \<open>integer\<close> column.
  The in-memory persistence checks no version: on an initialized storage it overwrites the
  first row with the same \<open>$workflowId\<close> by the saved state, leaving every other row as it
  is, or appends the state when there is no such row; it keeps the \<open>$version\<close> it was given,
  and it never raises \<open>WorkflowDataNotFound\<close>.
\<close>

theorem save_upsert:
  "(s_version s = 0 \<and> pg_uuid_in pg (s_workflowId s) = Some u \<and>
    pg_jsonb_in pg ((toPlain s)(''$version'' \<mapsto> VNum 1)) = Some j \<and>
    (\<forall>r \<in> set rows. row_id r \<noteq> u) \<longrightarrow>
      saveWorkflowData pg schemaName s rows =
        Inr (rows @ [\<lparr>row_id = u, row_version = 1, row_data = j\<rparr>])) \<and>
   (s_version s = 0 \<and> pg_uuid_in pg (s_workflowId s) = Some u \<and>
    (\<exists>r \<in> set rows. row_id r = u) \<longrightarrow>
      saveWorkflowData pg schemaName s rows = Inl DatabaseError) \<and>
   (s_version s \<noteq> 0 \<and> int4 (s_version s) \<and> int4 (s_version s + 1) \<and>
    pg_uuid_in pg (s_workflowId s) = Some u \<and>
    pg_jsonb_in pg ((toPlain s)(''$version'' \<mapsto> VNum (s_version s + 1))) = Some j \<and>
    (\<exists>r \<in> set rows. row_id r = u \<and> row_version r = s_version s) \<longrightarrow>
      saveWorkflowData pg schemaName s rows =
        Inr (map (\<lambda>r. if row_id r = u \<and> row_version r = s_version s
                       then r\<lparr>row_version := s_version s + 1, row_data := j\<rparr> else r) rows)) \<and>
   (s_version s \<noteq> 0 \<and> int4 (s_version s) \<and> int4 (s_version s + 1) \<and>
    pg_uuid_in pg (s_workflowId s) = Some u \<and>
    pg_jsonb_in pg ((toPlain s)(''$version'' \<mapsto> VNum (s_version s + 1))) = Some j \<and>
    (\<forall>r \<in> set rows. \<not> (row_id r = u \<and> row_version r = s_version s)) \<longrightarrow>
      saveWorkflowData pg schemaName s rows =
        Inl (WorkflowDataNotFound (s_workflowId s)
               (resolveQualifiedTableName (s_name s) schemaName) (s_version s))) \<and>
   (readStorage iap store (s_name s) = Rows srows \<and>
    (\<forall>d \<in> set srows. s_workflowId d \<noteq> s_workflowId s) \<longrightarrow>
      saveWorkflowState iap s store = Inr (writeRows store (s_name s) (srows @ [s])) \<and>
      readStorage iap (writeRows store (s_name s) (srows @ [s])) (s_name s)
        = Rows (srows @ [s])) \<and>
   (readStorage iap store (s_name s) = Rows (pre @ d # post) \<and>
    (\<forall>x \<in> set pre. s_workflowId x \<noteq> s_workflowId s) \<and> s_workflowId d = s_workflowId s \<longrightarrow>
      saveWorkflowState iap s store =
        Inr (writeRows store (s_name s) (pre @ assignState d s # post)) \<and>
      s_version (assignState d s) = s_version s \<and>
      readStorage iap (writeRows store (s_name s) (pre @ assignState d s # post)) (s_name s)
        = Rows (pre @ assignState d s # post)) \<and>
   saveWorkflowState iap s store \<noteq> Inl (WorkflowDataNotFound i t v)"
proof (intro conjI impI)
  show "saveWorkflowData pg schemaName s rows =
        Inr (rows @ [\<lparr>row_id = u, row_version = 1, row_data = j\<rparr>])"
    if "s_version s = 0 \<and> pg_uuid_in pg (s_workflowId s) = Some u \<and>
        pg_jsonb_in pg ((toPlain s)(''$version'' \<mapsto> VNum 1)) = Some j \<and>
        (\<forall>r \<in> set rows. row_id r \<noteq> u)"
    using that by (intro saveWorkflowData_insert) simp_all
  show "saveWorkflowData pg schemaName s rows = Inl DatabaseError"
    if "s_version s = 0 \<and> pg_uuid_in pg (s_workflowId s) = Some u \<and>
        (\<exists>r \<in> set rows. row_id r = u)"
    using that by (intro saveWorkflowData_insert_exists [of s pg u]) simp_all
  show "saveWorkflowData pg schemaName s rows =
        Inr (map (\<lambda>r. if row_id r = u \<and> row_version r = s_version s
                       then r\<lparr>row_version := s_version s + 1, row_data := j\<rparr> else r) rows)"
    if "s_version s \<noteq> 0 \<and> int4 (s_version s) \<and> int4 (s_version s + 1) \<and>
        pg_uuid_in pg (s_workflowId s) = Some u \<and>
        pg_jsonb_in pg ((toPlain s)(''$version'' \<mapsto> VNum (s_version s + 1))) = Some j \<and>
        (\<exists>r \<in> set rows. row_id r = u \<and> row_version r = s_version s)"
    using that by (intro saveWorkflowData_update) simp_all
  show "saveWorkflowData pg schemaName s rows =
        Inl (WorkflowDataNotFound (s_workflowId s)
               (resolveQualifiedTableName (s_name s) schemaName) (s_version s))"
    if "s_version s \<noteq> 0 \<and> int4 (s_version s) \<and> int4 (s_version s + 1) \<and>
        pg_uuid_in pg (s_workflowId s) = Some u \<and>
        pg_jsonb_in pg ((toPlain s)(''$version'' \<mapsto> VNum (s_version s + 1))) = Some j \<and>
        (\<forall>r \<in> set rows. \<not> (row_id r = u \<and> row_version r = s_version s))"
    using that by (intro saveWorkflowData_stale [of s pg u j]) simp_all
  show "saveWorkflowState iap s store = Inr (writeRows store (s_name s) (srows @ [s]))"
    if "readStorage iap store (s_name s) = Rows srows \<and>
        (\<forall>d \<in> set srows. s_workflowId d \<noteq> s_workflowId s)"
    using that by (intro saveWorkflowState_append) simp_all
  show "readStorage iap (writeRows store (s_name s) (srows @ [s])) (s_name s)
      = Rows (srows @ [s])"
    if "readStorage iap store (s_name s) = Rows srows \<and>
        (\<forall>d \<in> set srows. s_workflowId d \<noteq> s_workflowId s)"
    using that by (intro readStorage_writeRows [of iap store "s_name s" srows]) simp
  assume a: "readStorage iap store (s_name s) = Rows (pre @ d # post) \<and>
    (\<forall>x \<in> set pre. s_workflowId x \<noteq> s_workflowId s) \<and> s_workflowId d = s_workflowId s"
  then show "saveWorkflowState iap s store =
        Inr (writeRows store (s_name s) (pre @ assignState d s # post))"
    by (intro saveWorkflowState_overwrite) simp_all
  show "s_version (assignState d s) = s_version s"
    by (simp add: assignState_def)
  from a show "readStorage iap (writeRows store (s_name s) (pre @ assignState d s # post))
      (s_name s) = Rows (pre @ assignState d s # post)"
    by (intro readStorage_writeRows [of iap store "s_name s" "pre @ d # post"]) simp
next
  show "saveWorkflowState iap s store \<noteq> Inl (WorkflowDataNotFound i t v)"
    using saveWorkflowState_error [of iap s store] by auto
qed

text \<open>
  The theorem at a table and a storage whose row of the first id has version 3: a first
  save of another id, a first save of the stored id, a save on the stored version, and a
  stale save on version 1.
\<close>

theorem save_upsert_witness:
  "rowVersions (saveWorkflowData ex_pg ''public'' ex_first [ex_row])
     = [(ex_id1, 3), (ex_id2, 1)] \<and>
   saveWorkflowData ex_pg ''public'' (ex_stale\<lparr>s_version := 0\<rparr>) ex_rows = Inl DatabaseError \<and>
   rowVersions (saveWorkflowData ex_pg ''public'' ex_stored ex_rows)
     = [(ex_id1, 4), (ex_id2, 5), (ex_id3, 1)] \<and>
   saveWorkflowData ex_pg ''public'' ex_stale ex_rows =
     Inl (WorkflowDataNotFound ex_id1
       (resolveQualifiedTableName ''TestState'' ''public'') 1) \<and>
   saveWorkflowState ex_inArrayPrototype ex_first ex_initialized
     = Inr (writeRows ex_initialized ''TestState'' [ex_first]) \<and>
   saveWorkflowState ex_inArrayPrototype ex_stale ex_store
     = Inr (writeRows ex_store ''TestState''
         [assignState ex_stored ex_stale, ex_completed, ex_other]) \<and>
   saveWorkflowState ex_inArrayPrototype ex_stale ex_store
     \<noteq> Inl (WorkflowDataNotFound ex_id1 ''t'' 1)"
proof -
  have u: "pg_uuid_in ex_pg (s_workflowId ex_first) = Some ex_id2"
    "pg_uuid_in ex_pg (s_workflowId ex_stale) = Some ex_id1"
    "pg_uuid_in ex_pg (s_workflowId (ex_stale\<lparr>s_version := 0\<rparr>)) = Some ex_id1"
    "pg_uuid_in ex_pg (s_workflowId ex_stored) = Some ex_id1"
    by (simp_all add: ex_pg_defs ex2_defs)
  have j: "pg_jsonb_in ex_pg x = Some x" for x
    by (simp add: ex_pg_def)
  have v: "s_version ex_first = 0" "s_version (ex_stale\<lparr>s_version := 0\<rparr>) = 0"
    "s_version ex_stored = 3" "s_version ex_stale = 1" "int4 3" "int4 4" "int4 1" "int4 2"
    by (simp_all add: ex2_defs int4_def)
  have n: "s_name ex_stale = ''TestState''" "s_name ex_first = ''TestState''"
    "s_workflowId ex_stale = ex_id1" "s_workflowId ex_stored = ex_id1"
    by (simp_all add: ex2_defs)
  have rows: "ex_rows = [\<lparr>row_id = ex_id1, row_version = 3, row_data = ex_dataX\<rparr>,
     \<lparr>row_id = ex_id2, row_version = 5, row_data = ex_dataDone\<rparr>,
     \<lparr>row_id = ex_id3, row_version = 1, row_data = ex_dataY\<rparr>]"
    "ex_row = \<lparr>row_id = ex_id1, row_version = 3, row_data = ex_dataX\<rparr>"
    by (simp_all add: ex_rows_def ex_row_def)
  have ids: "ex_id1 \<noteq> ex_id2" "ex_id1 \<noteq> ex_id3" "ex_id2 \<noteq> ex_id3"
    by (simp_all add: ex2_defs)
  have m: "readStorage ex_inArrayPrototype ex_initialized (s_name ex_first) = Rows []"
    "readStorage ex_inArrayPrototype ex_store (s_name ex_stale)
       = Rows ([] @ ex_stored # [ex_completed, ex_other])"
    by (simp_all add: storage_defs ex2_defs)
  have first: "rowVersions (saveWorkflowData ex_pg ''public'' ex_first [ex_row])
     = [(ex_id1, 3), (ex_id2, 1)]"
    using u v ids
      save_upsert [of ex_first ex_pg ex_id2
        "(toPlain ex_first)(''$version'' \<mapsto> VNum 1)" "[ex_row]" "''public''",
        THEN conjunct1]
    by (simp add: j rows)
  have dup: "saveWorkflowData ex_pg ''public'' (ex_stale\<lparr>s_version := 0\<rparr>) ex_rows
     = Inl DatabaseError"
    using u v
      save_upsert [of "ex_stale\<lparr>s_version := 0\<rparr>" ex_pg ex_id1
        "(toPlain ex_first)(''$version'' \<mapsto> VNum 1)" ex_rows "''public''",
        THEN conjunct2, THEN conjunct1]
    by (simp add: rows)
  have upd: "rowVersions (saveWorkflowData ex_pg ''public'' ex_stored ex_rows)
     = [(ex_id1, 4), (ex_id2, 5), (ex_id3, 1)]"
    using u v ids
      save_upsert [of ex_stored ex_pg ex_id1
        "(toPlain ex_stored)(''$version'' \<mapsto> VNum 4)" ex_rows "''public''",
        THEN conjunct2, THEN conjunct2, THEN conjunct1]
    by (simp add: j rows)
  have stale: "saveWorkflowData ex_pg ''public'' ex_stale ex_rows =
     Inl (WorkflowDataNotFound ex_id1
       (resolveQualifiedTableName ''TestState'' ''public'') 1)"
    using u v ids
      save_upsert [of ex_stale ex_pg ex_id1
        "(toPlain ex_stale)(''$version'' \<mapsto> VNum 2)" ex_rows "''public''",
        THEN conjunct2, THEN conjunct2, THEN conjunct2, THEN conjunct1]
    by (simp add: j rows n)
  have app: "saveWorkflowState ex_inArrayPrototype ex_first ex_initialized
     = Inr (writeRows ex_initialized ''TestState'' [ex_first])"
    using m(1)
      save_upsert [of ex_first ex_pg ex_id2 "Map.empty" "[]" "''public''"
        ex_inArrayPrototype ex_initialized "[]",
        THEN conjunct2, THEN conjunct2, THEN conjunct2, THEN conjunct2, THEN conjunct1]
    by (simp add: n)
  have over: "saveWorkflowState ex_inArrayPrototype ex_stale ex_store
     = Inr (writeRows ex_store ''TestState''
         [assignState ex_stored ex_stale, ex_completed, ex_other])"
    using m(2)
      save_upsert [of ex_stale ex_pg ex_id1 "Map.empty" "[]" "''public''"
        ex_inArrayPrototype ex_store "[]" "[]" ex_stored "[ex_completed, ex_other]",
        THEN conjunct2, THEN conjunct2, THEN conjunct2, THEN conjunct2, THEN conjunct2,
        THEN conjunct1]
    by (simp add: n)
  have never: "saveWorkflowState ex_inArrayPrototype ex_stale ex_store
     \<noteq> Inl (WorkflowDataNotFound ex_id1 ''t'' 1)"
    using save_upsert [of ex_stale ex_pg ex_id1 "Map.empty" "[]" "''public''"
        ex_inArrayPrototype ex_store "[]" "[]" ex_stored "[]" ex_id1 "''t''" 1]
    by simp
  from first dup upd stale app over never show ?thesis by blast
qed

text \<open>
  Claim C1 as stated fails in the in-memory persistence: the stored row has version 3, the
  saved state has version 1, and the save overwrites the row without raising.
\<close>

theorem save_in_memory_counterexample:
  "readStorage ex_inArrayPrototype ex_store ''TestState''
     = Rows [ex_stored, ex_completed, ex_other] \<and>
   s_workflowId ex_stored = s_workflowId ex_stale \<and>
   s_version ex_stored = 3 \<and> s_version ex_stale = 1 \<and>
   storedVersions (saveWorkflowState ex_inArrayPrototype ex_stale ex_store)
     = [(''TestState'', [1, 5, 1])]"
  by (simp add: saveWorkflowState_def storage_defs assignState_def ex2_defs)

section \<open>Properties of the step dispatcher\<close>

lemmas ex4_defs = ex_delta_def ex_step_def ex_discardStep_def ex_idleStep_def ex_workflow_def
  ex_world_def ex_postgresPersistence_def

lemma dispatch_idle:
  "handler message attrs workflowState = Inr None \<Longrightarrow>
   dispatchMessageToWorkflow pers message attrs wfName workflowState ctor handler p = Inr p"
  by (simp add: dispatchMessageToWorkflow_def)

lemma dispatch_discard:
  "handler message attrs workflowState = Inr (Some d) \<Longrightarrow> d_status d = Some Discard \<Longrightarrow>
   dispatchMessageToWorkflow pers message attrs wfName workflowState ctor handler p = Inr p"
  by (simp add: dispatchMessageToWorkflow_def)

lemma dispatch_save:
  "handler message attrs workflowState = Inr (Some d) \<Longrightarrow> d_status d \<noteq> Some Discard \<Longrightarrow>
   dispatchMessageToWorkflow pers message attrs wfName workflowState ctor handler p
     = p_saveWorkflowState pers (assignDelta (assignState (st_new ctor) workflowState) d) p"
  by (simp add: dispatchMessageToWorkflow_def persist_def Let_def split: sum.splits)

lemma merged_props:
  "s_fields (assignDelta (assignState n old) d) = s_fields n ++ s_fields old ++ d_fields d"
  "s_version (assignDelta (assignState n old) d)
     = (case d_version d of None \<Rightarrow> s_version old | Some v \<Rightarrow> v)"
  "s_workflowId (assignDelta (assignState n old) d)
     = (case d_workflowId d of None \<Rightarrow> s_workflowId old | Some v \<Rightarrow> v)"
  "s_name (assignDelta (assignState n old) d)
     = (case d_name d of None \<Rightarrow> s_name old | Some v \<Rightarrow> v)"
  "s_status (assignDelta (assignState n old) d)
     = (case d_status d of None \<Rightarrow> s_status old | Some v \<Rightarrow> v)"
  by (simp_all add: assignDelta_def assignState_def split: option.splits)

text \<open>
  Claim C2, amended. When the step returns nothing, or a delta whose \<open>$status\<close> is \<open>Discard\<close>,
  the dispatcher returns without calling the persistence: whatever the persistence is, the
  call succeeds and the state of the persistence is the one before. Otherwise it calls
  \<open>saveWorkflowState\<close> once, with \<open>Object.assign(new stateType(), oldState, delta)\<close>: every
  property is the delta's when the delta sets it and the old state's otherwise, and the
  user-defined properties are those of the new instance, overwritten by the old state's,
  overwritten by the delta's. The state passed on has the old state's \<open>$version\<close> unless the
  delta sets one. With the Postgres persistence the persisted \<open>$version\<close> is incremented by
  exactly one: for a delta that sets neither \<open>$version\<close> nor \<open>$workflowId\<close>, the row of the
  old state's id and version gets that version plus one, in its column and in its data.
  With the in-memory persistence the row of the old state's id is overwritten by the merged
  state, and its \<open>$version\<close> stays the old state's.
\<close>

theorem dispatch_persists_merge:
  "(handler message attrs workflowState = Inr None \<longrightarrow>
      dispatchMessageToWorkflow pers message attrs wfName workflowState ctor handler p
        = Inr p) \<and>
   (handler message attrs workflowState = Inr (Some d) \<and> d_status d = Some Discard \<longrightarrow>
      dispatchMessageToWorkflow pers message attrs wfName workflowState ctor handler p
        = Inr p) \<and>
   (handler message attrs workflowState = Inr (Some d) \<and> d_status d \<noteq> Some Discard \<longrightarrow>
      dispatchMessageToWorkflow pers message attrs wfName workflowState ctor handler p
        = p_saveWorkflowState pers
            (assignDelta (assignState (st_new ctor) workflowState) d) p \<and>
      s_fields (assignDelta (assignState (st_new ctor) workflowState) d)
        = s_fields (st_new ctor) ++ s_fields workflowState ++ d_fields d \<and>
      s_version (assignDelta (assignState (st_new ctor) workflowState) d)
        = (case d_version d of None \<Rightarrow> s_version workflowState | Some v \<Rightarrow> v) \<and>
      s_workflowId (assignDelta (assignState (st_new ctor) workflowState) d)
        = (case d_workflowId d of None \<Rightarrow> s_workflowId workflowState | Some v \<Rightarrow> v) \<and>
      s_name (assignDelta (assignState (st_new ctor) workflowState) d)
        = (case d_name d of None \<Rightarrow> s_name workflowState | Some v \<Rightarrow> v) \<and>
      s_status (assignDelta (assignState (st_new ctor) workflowState) d)
        = (case d_status d of None \<Rightarrow> s_status workflowState | Some v \<Rightarrow> v)) \<and>
   (p_saveWorkflowState persPg = saveWorkflowData pg schemaName \<and>
    handler message attrs workflowState = Inr (Some d) \<and> d_status d \<noteq> Some Discard \<and>
    d_version d = None \<and> d_workflowId d = None \<and>
    s_version workflowState \<noteq> 0 \<and> int4 (s_version workflowState) \<and>
    int4 (s_version workflowState + 1) \<and>
    pg_uuid_in pg (s_workflowId workflowState) = Some u \<and>
    pg_jsonb_in pg ((toPlain (assignDelta (assignState (st_new ctor) workflowState) d))
                      (''$version'' \<mapsto> VNum (s_version workflowState + 1))) = Some j \<and>
    (\<exists>r \<in> set rows. row_id r = u \<and> row_version r = s_version workflowState) \<longrightarrow>
      dispatchMessageToWorkflow persPg message attrs wfName workflowState ctor handler rows
        = Inr (map (\<lambda>r. if row_id r = u \<and> row_version r = s_version workflowState
                         then r\<lparr>row_version := s_version workflowState + 1, row_data := j\<rparr>
                         else r) rows)) \<and>
   (handler message attrs workflowState = Inr (Some d) \<and> d_status d \<noteq> Some Discard \<and>
    d_version d = None \<and> d_workflowId d = None \<and> d_name d = None \<and>
    readStorage iap store (s_name workflowState) = Rows (pre @ old # post) \<and>
    (\<forall>x \<in> set pre. s_workflowId x \<noteq> s_workflowId workflowState) \<and>
    s_workflowId old = s_workflowId workflowState \<longrightarrow>
      dispatchMessageToWorkflow (inMemoryPersistence iap) message attrs wfName workflowState
          ctor handler store
        = Inr (writeRows store (s_name workflowState)
            (pre @ assignState old (assignDelta (assignState (st_new ctor) workflowState) d)
               # post)) \<and>
      s_version (assignState old (assignDelta (assignState (st_new ctor) workflowState) d))
        = s_version workflowState)"
proof (intro conjI impI)
  show "dispatchMessageToWorkflow pers message attrs wfName workflowState ctor handler p
        = Inr p"
    if "handler message attrs workflowState = Inr None"
    using that by (rule dispatch_idle)
  show "dispatchMessageToWorkflow pers message attrs wfName workflowState ctor handler p
        = Inr p"
    if "handler message attrs workflowState = Inr (Some d) \<and> d_status d = Some Discard"
    using that by (simp add: dispatch_discard)
  show "dispatchMessageToWorkflow pers message attrs wfName workflowState ctor handler p
        = p_saveWorkflowState pers
            (assignDelta (assignState (st_new ctor) workflowState) d) p"
    if "handler message attrs workflowState = Inr (Some d) \<and> d_status d \<noteq> Some Discard"
    using that by (simp add: dispatch_save)
  show "s_fields (assignDelta (assignState (st_new ctor) workflowState) d)
        = s_fields (st_new ctor) ++ s_fields workflowState ++ d_fields d"
    by (rule merged_props)
  show "s_version (assignDelta (assignState (st_new ctor) workflowState) d)
        = (case d_version d of None \<Rightarrow> s_version workflowState | Some v \<Rightarrow> v)"
    by (rule merged_props)
  show "s_workflowId (assignDelta (assignState (st_new ctor) workflowState) d)
        = (case d_workflowId d of None \<Rightarrow> s_workflowId workflowState | Some v \<Rightarrow> v)"
    by (rule merged_props)
  show "s_name (assignDelta (assignState (st_new ctor) workflowState) d)
        = (case d_name d of None \<Rightarrow> s_name workflowState | Some v \<Rightarrow> v)"
    by (rule merged_props)
  show "s_status (assignDelta (assignState (st_new ctor) workflowState) d)
        = (case d_status d of None \<Rightarrow> s_status workflowState | Some v \<Rightarrow> v)"
    by (rule merged_props)
next
  let ?m = "assignDelta (assignState (st_new ctor) workflowState) d"
  assume a: "p_saveWorkflowState persPg = saveWorkflowData pg schemaName \<and>
    handler message attrs workflowState = Inr (Some d) \<and> d_status d \<noteq> Some Discard \<and>
    d_version d = None \<and> d_workflowId d = None \<and>
    s_version workflowState \<noteq> 0 \<and> int4 (s_version workflowState) \<and>
    int4 (s_version workflowState + 1) \<and>
    pg_uuid_in pg (s_workflowId workflowState) = Some u \<and>
    pg_jsonb_in pg ((toPlain ?m)(''$version'' \<mapsto> VNum (s_version workflowState + 1))) = Some j \<and>
    (\<exists>r \<in> set rows. row_id r = u \<and> row_version r = s_version workflowState)"
  then have v: "s_version ?m = s_version workflowState"
    and i: "s_workflowId ?m = s_workflowId workflowState"
    by (simp_all add: merged_props)
  from a have "dispatchMessageToWorkflow persPg message attrs wfName workflowState ctor
      handler rows = saveWorkflowData pg schemaName ?m rows"
    by (simp add: dispatch_save)
  also have "\<dots> = Inr (map (\<lambda>r. if row_id r = u \<and> row_version r = s_version ?m
                         then r\<lparr>row_version := s_version ?m + 1, row_data := j\<rparr>
                         else r) rows)"
    using a by (intro saveWorkflowData_update) (simp_all add: v i)
  finally show "dispatchMessageToWorkflow persPg message attrs wfName workflowState ctor
      handler rows
        = Inr (map (\<lambda>r. if row_id r = u \<and> row_version r = s_version workflowState
                         then r\<lparr>row_version := s_version workflowState + 1, row_data := j\<rparr>
                         else r) rows)"
    by (simp add: v)
next
  let ?m = "assignDelta (assignState (st_new ctor) workflowState) d"
  assume a: "handler message attrs workflowState = Inr (Some d) \<and> d_status d \<noteq> Some Discard \<and>
    d_version d = None \<and> d_workflowId d = None \<and> d_name d = None \<and>
    readStorage iap store (s_name workflowState) = Rows (pre @ old # post) \<and>
    (\<forall>x \<in> set pre. s_workflowId x \<noteq> s_workflowId workflowState) \<and>
    s_workflowId old = s_workflowId workflowState"
  then have v: "s_version ?m = s_version workflowState"
    and i: "s_workflowId ?m = s_workflowId workflowState"
    and n: "s_name ?m = s_name workflowState"
    by (simp_all add: merged_props)
  from a have "dispatchMessageToWorkflow (inMemoryPersistence iap) message attrs wfName
      workflowState ctor handler store = saveWorkflowState iap ?m store"
    by (simp add: dispatch_save inMemoryPersistence_def)
  also have "\<dots> = Inr (writeRows store (s_name ?m) (pre @ assignState old ?m # post))"
    using a by (intro saveWorkflowState_overwrite) (simp_all add: i n)
  finally show "dispatchMessageToWorkflow (inMemoryPersistence iap) message attrs wfName
      workflowState ctor handler store
        = Inr (writeRows store (s_name workflowState) (pre @ assignState old ?m # post))"
    by (simp add: n)
  show "s_version (assignState old ?m) = s_version workflowState"
    using v by (simp add: assignState_def)
qed

text \<open>
  The theorem at a step that returns nothing, a step that discards and a step that sets a
  property, on a stored state of version 3, with the in-memory and the Postgres persistence.
\<close>

theorem dispatch_persists_merge_witness:
  "dispatchMessageToWorkflow ex_persistence ex_order ex_attrs ''wf''
     ex_stored ex_stateType ex_idleStep ex_store = Inr ex_store \<and>
   dispatchMessageToWorkflow ex_persistence ex_order ex_attrs ''wf''
     ex_stored ex_stateType ex_discardStep ex_store = Inr ex_store \<and>
   dispatchMessageToWorkflow ex_persistence ex_order ex_attrs ''wf''
     ex_stored ex_stateType ex_step ex_store
     = saveWorkflowState ex_inArrayPrototype
         (assignDelta (assignState ex_newState ex_stored) ex_delta) ex_store \<and>
   s_version (assignDelta (assignState ex_newState ex_stored) ex_delta) = 3 \<and>
   rowVersions (dispatchMessageToWorkflow ex_postgresPersistence ex_order ex_attrs ''wf''
     ex_stored ex_stateType ex_step ex_rows) = [(ex_id1, 4), (ex_id2, 5), (ex_id3, 1)] \<and>
   dispatchMessageToWorkflow ex_persistence ex_order ex_attrs ''wf''
     ex_stored ex_stateType ex_step ex_store
     = Inr (writeRows ex_store ''TestState''
         [assignState ex_stored (assignDelta (assignState ex_newState ex_stored) ex_delta),
          ex_completed, ex_other])"
proof -
  let ?m = "assignDelta (assignState (st_new ex_stateType) ex_stored) ex_delta"
  have a: "ex_idleStep ex_order ex_attrs ex_stored = Inr None"
    by (simp add: ex_idleStep_def)
  have b: "ex_discardStep ex_order ex_attrs ex_stored
      = Inr (Some (ex_delta\<lparr>d_status := Some Discard\<rparr>))
    \<and> d_status (ex_delta\<lparr>d_status := Some Discard\<rparr>) = Some Discard"
    by (simp add: ex_discardStep_def)
  have c: "ex_step ex_order ex_attrs ex_stored = Inr (Some ex_delta)"
    "d_status ex_delta \<noteq> Some Discard" "d_version ex_delta = None"
    "d_workflowId ex_delta = None" "d_name ex_delta = None"
    by (simp_all add: ex_step_def ex_delta_def)
  have g: "p_saveWorkflowState ex_postgresPersistence = saveWorkflowData ex_pg ''public''"
    "pg_uuid_in ex_pg (s_workflowId ex_stored) = Some ex_id1"
    "pg_jsonb_in ex_pg ((toPlain ?m)(''$version'' \<mapsto> VNum (s_version ex_stored + 1)))
       = Some ((toPlain ?m)(''$version'' \<mapsto> VNum (s_version ex_stored + 1)))"
    by (simp_all add: ex_postgresPersistence_def ex_pg_defs ex2_defs)
  have v: "s_version ex_stored = 3" "int4 3" "int4 4" "s_name ex_stored = ''TestState''"
    "s_workflowId ex_stored = ex_id1" "st_new ex_stateType = ex_newState"
    by (simp_all add: ex2_defs int4_def)
  have rows: "ex_rows = [\<lparr>row_id = ex_id1, row_version = 3, row_data = ex_dataX\<rparr>,
     \<lparr>row_id = ex_id2, row_version = 5, row_data = ex_dataDone\<rparr>,
     \<lparr>row_id = ex_id3, row_version = 1, row_data = ex_dataY\<rparr>]"
    by (simp add: ex_rows_def ex_row_def)
  have ids: "ex_id1 \<noteq> ex_id2" "ex_id1 \<noteq> ex_id3" "ex_id2 \<noteq> ex_id3"
    by (simp_all add: ex2_defs)
  have m: "readStorage ex_inArrayPrototype ex_store (s_name ex_stored)
       = Rows ([] @ ex_stored # [ex_completed, ex_other])"
    by (simp add: storage_defs ex2_defs)
  have idle: "dispatchMessageToWorkflow ex_persistence ex_order
     ex_attrs ''wf'' ex_stored ex_stateType ex_idleStep ex_store = Inr ex_store"
    using a dispatch_persists_merge [of ex_idleStep ex_order ex_attrs ex_stored
        ex_persistence "''wf''" ex_stateType ex_store,
        THEN conjunct1]
    by simp
  have discard: "dispatchMessageToWorkflow ex_persistence ex_order
     ex_attrs ''wf'' ex_stored ex_stateType ex_discardStep ex_store = Inr ex_store"
    using b dispatch_persists_merge [of ex_discardStep ex_order ex_attrs ex_stored
        ex_persistence "''wf''" ex_stateType ex_store
        "ex_delta\<lparr>d_status := Some Discard\<rparr>",
        THEN conjunct2, THEN conjunct1]
    by simp
  have save: "dispatchMessageToWorkflow ex_persistence ex_order
     ex_attrs ''wf'' ex_stored ex_stateType ex_step ex_store
     = saveWorkflowState ex_inArrayPrototype
         (assignDelta (assignState ex_newState ex_stored) ex_delta) ex_store \<and>
     s_version (assignDelta (assignState ex_newState ex_stored) ex_delta) = 3"
    using c dispatch_persists_merge [of ex_step ex_order ex_attrs ex_stored
        ex_persistence "''wf''" ex_stateType ex_store ex_delta,
        THEN conjunct2, THEN conjunct2, THEN conjunct1]
    by (simp add: ex_persistence_def inMemoryPersistence_def v)
  have pg: "rowVersions (dispatchMessageToWorkflow ex_postgresPersistence ex_order ex_attrs
     ''wf'' ex_stored ex_stateType ex_step ex_rows) = [(ex_id1, 4), (ex_id2, 5), (ex_id3, 1)]"
    using c g ids dispatch_persists_merge [of ex_step ex_order ex_attrs ex_stored
        ex_persistence "''wf''" ex_stateType ex_store ex_delta
        ex_postgresPersistence ex_pg "''public''" ex_id1
        "(toPlain ?m)(''$version'' \<mapsto> VNum (s_version ex_stored + 1))" ex_rows,
        THEN conjunct2, THEN conjunct2, THEN conjunct2, THEN conjunct1]
    by (simp add: v rows)
  have mem: "dispatchMessageToWorkflow ex_persistence ex_order
     ex_attrs ''wf'' ex_stored ex_stateType ex_step ex_store
     = Inr (writeRows ex_store ''TestState''
         [assignState ex_stored (assignDelta (assignState ex_newState ex_stored) ex_delta),
          ex_completed, ex_other])"
    using c m dispatch_persists_merge [of ex_step ex_order ex_attrs ex_stored
        ex_persistence "''wf''" ex_stateType ex_store ex_delta
        ex_postgresPersistence ex_pg "''public''" ex_id1 "Map.empty" ex_rows
        ex_inArrayPrototype ex_store "[]" ex_stored "[ex_completed, ex_other]",
        THEN conjunct2, THEN conjunct2, THEN conjunct2, THEN conjunct2]
    by (simp add: v ex_persistence_def)
  from idle discard save pg mem show ?thesis by blast
qed

text \<open>
  Claim C2 as stated fails with the in-memory persistence: the old state has version 3, the
  step returns a delta, and the row persisted for it still has version 3.
\<close>

theorem dispatch_version_counterexample:
  "s_version ex_stored = 3 \<and>
   storedVersions (dispatchMessageToWorkflow ex_persistence ex_order
     ex_attrs ''wf'' ex_stored ex_stateType ex_step ex_store) = [(''TestState'', [3, 5, 1])]"
  by (simp add: dispatchMessageToWorkflow_def persist_def ex_persistence_def inMemoryPersistence_def
      saveWorkflowState_def storage_defs assignState_def assignDelta_def ex2_defs ex4_defs)

section \<open>Properties of the workflow registry\<close>

subsection \<open>Handlers installed by initialize\<close>

lemma register_mono:
  "set (handlersOf r n) \<subseteq> set (handlersOf (snd (register mt h rw ti r)) n)"
  by (auto simp: handlersOf_register)

lemma register_installs:
  "fst (register mt h rw ti r) = Inr u \<Longrightarrow>
   h \<in> set (handlersOf (snd (register mt h rw ti r)) (mt_name mt))"
  by (auto simp: handlersOf_register fst_register split: if_splits)

lemma forEachStartedBy_Cons:
  "forEachStartedBy wfl ((mt, step) # rest) w =
     (case fst (register mt (StartedByFn (nextRef w) (stateType wfl) step) None None
                 (handlerRegistry w)) of
        Inl e \<Rightarrow> (Inl e, w\<lparr>nextRef := nextRef w + 1, handlerRegistry :=
                    snd (register mt (StartedByFn (nextRef w) (stateType wfl) step) None None
                          (handlerRegistry w))\<rparr>)
      | Inr u \<Rightarrow> forEachStartedBy wfl rest (w\<lparr>nextRef := nextRef w + 1, handlerRegistry :=
                    snd (register mt (StartedByFn (nextRef w) (stateType wfl) step) None None
                          (handlerRegistry w))\<rparr>))"
  by (simp add: Let_def split: prod.splits sum.splits)

lemma forEachWhen_Cons:
  "forEachWhen wfl ((mt, h) # rest) w =
     (case fst (register mt (HandlesFn (nextRef w) (workflowName wfl) (stateType wfl)
                   \<lparr>lookup = lookup (ow_options h), mapsTo = mapsTo (ow_options h)\<rparr>
                   (ow_handler h)) None None (handlerRegistry w)) of
        Inl e \<Rightarrow> (Inl e, w\<lparr>nextRef := nextRef w + 1, handlerRegistry :=
                    snd (register mt (HandlesFn (nextRef w) (workflowName wfl) (stateType wfl)
                   \<lparr>lookup = lookup (ow_options h), mapsTo = mapsTo (ow_options h)\<rparr>
                   (ow_handler h)) None None (handlerRegistry w))\<rparr>)
      | Inr u \<Rightarrow> forEachWhen wfl rest (w\<lparr>nextRef := nextRef w + 1, handlerRegistry :=
                    snd (register mt (HandlesFn (nextRef w) (workflowName wfl) (stateType wfl)
                   \<lparr>lookup = lookup (ow_options h), mapsTo = mapsTo (ow_options h)\<rparr>
                   (ow_handler h)) None None (handlerRegistry w))\<rparr>))"
  by (simp add: Let_def split: prod.splits sum.splits)

lemma forEachStartedBy_mono:
  "set (handlersOf (handlerRegistry w) n)
     \<subseteq> set (handlersOf (handlerRegistry (snd (forEachStartedBy wfl ps w))) n)"
proof (induction ps arbitrary: w)
  case Nil
  then show ?case by simp
next
  case (Cons q ps)
  obtain mt step where q: "q = (mt, step)" by (cases q)
  let ?fn = "StartedByFn (nextRef w) (stateType wfl) step"
  let ?r = "snd (register mt ?fn None None (handlerRegistry w))"
  let ?w = "w\<lparr>nextRef := nextRef w + 1, handlerRegistry := ?r\<rparr>"
  have step1: "set (handlersOf (handlerRegistry w) n) \<subseteq> set (handlersOf ?r n)"
    by (rule register_mono)
  have "set (handlersOf ?r n)
        \<subseteq> set (handlersOf (handlerRegistry (snd (forEachStartedBy wfl ps ?w))) n)"
    using Cons.IH [of ?w] by simp
  with step1 show ?case
    unfolding q forEachStartedBy_Cons by (auto split: sum.splits)
qed

lemma forEachWhen_mono:
  "set (handlersOf (handlerRegistry w) n)
     \<subseteq> set (handlersOf (handlerRegistry (snd (forEachWhen wfl ps w))) n)"
proof (induction ps arbitrary: w)
  case Nil
  then show ?case by simp
next
  case (Cons q ps)
  obtain mt h where q: "q = (mt, h)" by (cases q)
  let ?fn = "HandlesFn (nextRef w) (workflowName wfl) (stateType wfl)
                   \<lparr>lookup = lookup (ow_options h), mapsTo = mapsTo (ow_options h)\<rparr>
                   (ow_handler h)"
  let ?r = "snd (register mt ?fn None None (handlerRegistry w))"
  let ?w = "w\<lparr>nextRef := nextRef w + 1, handlerRegistry := ?r\<rparr>"
  have step1: "set (handlersOf (handlerRegistry w) n) \<subseteq> set (handlersOf ?r n)"
    by (rule register_mono)
  have "set (handlersOf ?r n)
        \<subseteq> set (handlersOf (handlerRegistry (snd (forEachWhen wfl ps ?w))) n)"
    using Cons.IH [of ?w] by simp
  with step1 show ?case
    unfolding q forEachWhen_Cons by (auto split: sum.splits)
qed

lemma forEachStartedBy_installs:
  "fst (forEachStartedBy wfl ps w) = Inr u \<Longrightarrow> (mt, step) \<in> set ps \<Longrightarrow>
   \<exists>ref. StartedByFn ref (stateType wfl) step
     \<in> set (handlersOf (handlerRegistry (snd (forEachStartedBy wfl ps w))) (mt_name mt))"
proof (induction ps arbitrary: w)
  case Nil
  then show ?case by simp
next
  case (Cons q ps)
  obtain mt' step' where q: "q = (mt', step')" by (cases q)
  let ?fn = "StartedByFn (nextRef w) (stateType wfl) step'"
  let ?reg = "register mt' ?fn None None (handlerRegistry w)"
  let ?w = "w\<lparr>nextRef := nextRef w + 1, handlerRegistry := snd ?reg\<rparr>"
  from Cons.prems(1) obtain u' where ok: "fst ?reg = Inr u'"
    unfolding q forEachStartedBy_Cons by (auto split: sum.splits)
  then have run: "forEachStartedBy wfl (q # ps) w = forEachStartedBy wfl ps ?w"
    unfolding q forEachStartedBy_Cons by simp
  show ?case
  proof (cases "(mt, step) = q")
    case True
    then have "mt' = mt" "step' = step" using q by auto
    with register_installs [OF ok]
    have "StartedByFn (nextRef w) (stateType wfl) step
        \<in> set (handlersOf (handlerRegistry ?w) (mt_name mt))" by simp
    with forEachStartedBy_mono [of ?w "mt_name mt" wfl ps] show ?thesis
      unfolding run by blast
  next
    case False
    with Cons.prems(2) have "(mt, step) \<in> set ps" by auto
    moreover from Cons.prems(1) have "fst (forEachStartedBy wfl ps ?w) = Inr u"
      unfolding run .
    ultimately show ?thesis unfolding run by (rule Cons.IH [rotated])
  qed
qed

lemma initializeEach_Cons:
  "initializeEach pers (wfl # rest) w =
     (case fst (registerFnStartedBy wfl w) of
        Inl e \<Rightarrow> (Inl e, snd (registerFnStartedBy wfl w))
      | Inr u \<Rightarrow>
         (case fst (registerFnHandles wfl (snd (registerFnStartedBy wfl w))) of
            Inl e \<Rightarrow> (Inl e, snd (registerFnHandles wfl (snd (registerFnStartedBy wfl w))))
          | Inr u \<Rightarrow>
             (case p_initializeWorkflow pers (stateType wfl)
                     (map (\<lambda>(_, onWhenHandler). ow_options onWhenHandler) (onWhen wfl))
                     (persistenceState (snd (registerFnHandles wfl (snd (registerFnStartedBy wfl w))))) of
                Inl e \<Rightarrow> (Inl e, snd (registerFnHandles wfl (snd (registerFnStartedBy wfl w))))
              | Inr p' \<Rightarrow> initializeEach pers rest
                  ((snd (registerFnHandles wfl (snd (registerFnStartedBy wfl w))))
                     \<lparr>persistenceState := p'\<rparr>))))"
  by (simp add: Let_def case_prod_beta split: sum.split)

lemma initializeEach_mono:
  "set (handlersOf (handlerRegistry w) n)
     \<subseteq> set (handlersOf (handlerRegistry (snd (initializeEach pers wfs w))) n)"
proof (induction wfs arbitrary: w)
  case Nil
  then show ?case by simp
next
  case (Cons wfl wfs)
  let ?w1 = "snd (registerFnStartedBy wfl w)"
  let ?w2 = "snd (registerFnHandles wfl ?w1)"
  have a: "set (handlersOf (handlerRegistry w) n) \<subseteq> set (handlersOf (handlerRegistry ?w1) n)"
    unfolding registerFnStartedBy_def by (rule forEachStartedBy_mono)
  have b: "set (handlersOf (handlerRegistry ?w1) n) \<subseteq> set (handlersOf (handlerRegistry ?w2) n)"
    unfolding registerFnHandles_def by (rule forEachWhen_mono)
  have c: "\<And>p'. set (handlersOf (handlerRegistry ?w2) n)
      \<subseteq> set (handlersOf (handlerRegistry
            (snd (initializeEach pers wfs (?w2\<lparr>persistenceState := p'\<rparr>)))) n)"
    using Cons.IH [of "?w2\<lparr>persistenceState := p'\<rparr>" for p'] by simp
  from a b c show ?case
    unfolding initializeEach_Cons by (auto split: sum.splits)
qed

lemma initializeEach_installs:
  "fst (initializeEach pers wfs w) = Inr u \<Longrightarrow> wfl \<in> set wfs \<Longrightarrow>
   (mt, step) \<in> set (onStartedBy wfl) \<Longrightarrow>
   \<exists>ref. StartedByFn ref (stateType wfl) step
     \<in> set (handlersOf (handlerRegistry (snd (initializeEach pers wfs w))) (mt_name mt))"
proof (induction wfs arbitrary: w)
  case Nil
  then show ?case by simp
next
  case (Cons wfl' wfs)
  let ?w1 = "snd (registerFnStartedBy wfl' w)"
  let ?w2 = "snd (registerFnHandles wfl' ?w1)"
  from Cons.prems(1) obtain u1 u2 p' where
    ok1: "fst (registerFnStartedBy wfl' w) = Inr u1" and
    ok2: "fst (registerFnHandles wfl' ?w1) = Inr u2" and
    ok3: "p_initializeWorkflow pers (stateType wfl')
            (map (\<lambda>(_, onWhenHandler). ow_options onWhenHandler) (onWhen wfl'))
            (persistenceState ?w2) = Inr p'"
    unfolding initializeEach_Cons by (auto split: sum.splits)
  let ?w3 = "?w2\<lparr>persistenceState := p'\<rparr>"
  have run: "initializeEach pers (wfl' # wfs) w = initializeEach pers wfs ?w3"
    unfolding initializeEach_Cons using ok1 ok2 ok3 by simp
  show ?case
  proof (cases "wfl = wfl'")
    case True
    from ok1 Cons.prems(3) True obtain ref where
      "StartedByFn ref (stateType wfl) step \<in> set (handlersOf (handlerRegistry ?w1) (mt_name mt))"
      unfolding registerFnStartedBy_def using forEachStartedBy_installs by blast
    moreover have "set (handlersOf (handlerRegistry ?w1) (mt_name mt))
        \<subseteq> set (handlersOf (handlerRegistry ?w3) (mt_name mt))"
      using forEachWhen_mono [of ?w1 "mt_name mt" wfl' "onWhen wfl'"]
      unfolding registerFnHandles_def by simp
    ultimately show ?thesis
      unfolding run using initializeEach_mono [of ?w3 "mt_name mt" pers wfs] by blast
  next
    case False
    with Cons.prems(2) have "wfl \<in> set wfs" by auto
    moreover from Cons.prems(1) have "fst (initializeEach pers wfs ?w3) = Inr u"
      unfolding run .
    ultimately show ?thesis
      unfolding run using Cons.IH [of ?w3] Cons.prems(3) by blast
  qed
qed

lemma initializePersistence_keeps:
  "workflowRegistry (snd (initializePersistence pers w)) = workflowRegistry w"
  "handlerRegistry (snd (initializePersistence pers w)) = handlerRegistry w"
  by (auto simp: initializePersistence_def split: option.splits sum.splits)

lemma initialize_empty:
  "workflowRegistry w = [] \<Longrightarrow> initialize pers w = (Inr (), w)"
  by (simp add: initialize_def initializeWorkflows_def)

lemma initializeWorkflows_Some:
  "fst (initializeWorkflows pers w) = Inr (Some u) \<Longrightarrow>
   workflowRegistry w \<noteq> [] \<and> \<not> isInitialized w \<and> \<not> isInitializing w \<and>
   fst (initializeEach pers (workflowRegistry w) (w\<lparr>isInitializing := True\<rparr>)) = Inr () \<and>
   snd (initializeWorkflows pers w) =
     (snd (initializeEach pers (workflowRegistry w) (w\<lparr>isInitializing := True\<rparr>)))
       \<lparr>workflowRegistry := []\<rparr>"
  by (auto simp: initializeWorkflows_def Let_def case_prod_beta split: if_splits sum.splits)

lemma initialize_ok_cases:
  "fst (initialize pers w) = Inr u \<Longrightarrow>
   (workflowRegistry w = [] \<and> initialize pers w = (Inr (), w)) \<or>
   (fst (initializeWorkflows pers w) = Inr (Some ()) \<and>
    initialize pers w = initializePersistence pers (snd (initializeWorkflows pers w)))"
  by (auto simp: initialize_def initializeWorkflows_def Let_def case_prod_beta
      split: if_splits sum.splits option.splits)

lemmas workflow_defs = initialize_def initializeWorkflows_def initializePersistence_def
  registerFnStartedBy_def registerFnHandles_def registerWorkflow_def newWorld_def
  ex_persistence_def inMemoryPersistence_def initializeWorkflow_def newWorkflowStorage_def

text \<open>
  Claim C3, amended. After a successful \<open>initialize\<close>, for every registered workflow and
  every pair \<open>(MsgType, step)\<close> of its \<open>onStartedBy\<close>, the handler registry returns under the
  name of \<open>MsgType\<close> a handler that creates a workflow state from a new instance of the state
  type with the new UUID and \<open>$status = Running\<close> (its \<open>$version\<close> is the one of the new
  instance), invokes the step on a copy of it, returns without a persistence call when the step
  returns nothing, and otherwise calls \<open>saveWorkflowState\<close> with \<open>{...state, ...delta}\<close>. No
  \<open>$version = 1\<close> is merged: the state passed on has the \<open>$version\<close> of the new instance
  unless the delta sets one.
\<close>

theorem startedBy_handler_saves_merge:
  "s_workflowId (createWorkflowState st uuid) = uuid \<and>
   s_status (createWorkflowState st uuid) = Running \<and>
   s_version (createWorkflowState st uuid) = s_version (st_new st) \<and>
   (step message attrs (createWorkflowState st uuid) = Inr None \<longrightarrow>
      startedByHandler pers st step uuid message attrs p = Inr p) \<and>
   (step message attrs (createWorkflowState st uuid) = Inr (Some d) \<longrightarrow>
      startedByHandler pers st step uuid message attrs p
        = p_saveWorkflowState pers (assignDelta (createWorkflowState st uuid) d) p \<and>
      s_version (assignDelta (createWorkflowState st uuid) d)
        = (case d_version d of None \<Rightarrow> s_version (st_new st) | Some v \<Rightarrow> v)) \<and>
   (fst (initialize pers w) = Inr () \<and> wfl \<in> set (workflowRegistry w) \<and>
    (mt, step) \<in> set (onStartedBy wfl) \<longrightarrow>
      (\<exists>ref hs.
        fst (get (mt_name mt) (handlerRegistry (snd (initialize pers w)))) = Some hs \<and>
        StartedByFn ref (stateType wfl) step \<in> set hs \<and>
        invokeStartedBy pers (StartedByFn ref (stateType wfl) step) uuid message attrs p
          = Some (startedByHandler pers (stateType wfl) step uuid message attrs p)))"
proof (intro conjI impI)
  assume a: "fst (initialize pers w) = Inr () \<and> wfl \<in> set (workflowRegistry w) \<and>
    (mt, step) \<in> set (onStartedBy wfl)"
  then have ne: "workflowRegistry w \<noteq> []" by auto
  from a have ok: "fst (initialize pers w) = Inr ()" by simp
  from initialize_ok_cases [OF ok] ne
  have iw: "fst (initializeWorkflows pers w) = Inr (Some ())"
    and run: "initialize pers w = initializePersistence pers (snd (initializeWorkflows pers w))"
    by auto
  let ?w1 = "w\<lparr>isInitializing := True\<rparr>"
  from initializeWorkflows_Some [OF iw]
  have each: "fst (initializeEach pers (workflowRegistry w) ?w1) = Inr ()"
    and st: "snd (initializeWorkflows pers w) =
       (snd (initializeEach pers (workflowRegistry w) ?w1))\<lparr>workflowRegistry := []\<rparr>"
    by auto
  from initializeEach_installs [OF each, of wfl mt step] a obtain ref where
    "StartedByFn ref (stateType wfl) step
       \<in> set (handlersOf (handlerRegistry (snd (initializeEach pers (workflowRegistry w) ?w1)))
            (mt_name mt))" by auto
  then have mem: "StartedByFn ref (stateType wfl) step
       \<in> set (handlersOf (handlerRegistry (snd (initialize pers w))) (mt_name mt))"
    by (simp add: run st initializePersistence_keeps)
  then have "fst (get (mt_name mt) (handlerRegistry (snd (initialize pers w))))
       = Some (handlersOf (handlerRegistry (snd (initialize pers w))) (mt_name mt))"
    by (rule fst_get_registered)
  with mem show "\<exists>ref hs.
        fst (get (mt_name mt) (handlerRegistry (snd (initialize pers w)))) = Some hs \<and>
        StartedByFn ref (stateType wfl) step \<in> set hs \<and>
        invokeStartedBy pers (StartedByFn ref (stateType wfl) step) uuid message attrs p
          = Some (startedByHandler pers (stateType wfl) step uuid message attrs p)"
    by auto
qed (auto simp: createWorkflowState_def startedByHandler_def Let_def assignDelta_def
       split: option.splits)

text \<open>
  The theorem at a workflow started by the message type \<open>A\<close>, with a state type whose new
  instance has version 0.
\<close>

theorem startedBy_handler_saves_merge_witness:
  "fst (initialize ex_persistence ex_world) = Inr () \<and>
   fst (get ''A'' (handlerRegistry
     (snd (initialize ex_persistence ex_world))))
     = Some [StartedByFn 0 ex_stateType ex_step] \<and>
   ex_step ex_msgA ex_attrs (createWorkflowState ex_stateType ex_id1) = Inr (Some ex_delta) \<and>
   startedByHandler ex_persistence ex_stateType ex_step ex_id1 ex_msgA ex_attrs
     ex_initialized
     = saveWorkflowState ex_inArrayPrototype
         (assignDelta (createWorkflowState ex_stateType ex_id1) ex_delta) ex_initialized \<and>
   s_version (assignDelta (createWorkflowState ex_stateType ex_id1) ex_delta) = 0 \<and>
   startedByHandler ex_persistence ex_stateType ex_idleStep ex_id1 ex_msgA ex_attrs
     ex_initialized = Inr ex_initialized"
proof -
  have a: "fst (initialize ex_persistence ex_world) = Inr ()"
    by (simp add: ex_world_def ex_workflow_def workflow_defs registry_defs ex_defs ex2_defs)
  have b: "ex_workflow \<in> set (workflowRegistry ex_world)"
    by (simp add: ex_world_def registerWorkflow_def newWorld_def)
  have c: "(ex_typeA, ex_step) \<in> set (onStartedBy ex_workflow)"
    by (simp add: ex_workflow_def)
  have d: "ex_step ex_msgA ex_attrs (createWorkflowState ex_stateType ex_id1)
      = Inr (Some ex_delta)" by (simp add: ex_step_def)
  have e: "ex_idleStep ex_msgA ex_attrs (createWorkflowState ex_stateType ex_id1) = Inr None"
    by (simp add: ex_idleStep_def)
  have f: "fst (get ''A'' (handlerRegistry
     (snd (initialize ex_persistence ex_world))))
     = Some [StartedByFn 0 ex_stateType ex_step]"
    by (simp add: ex_world_def ex_workflow_def workflow_defs registry_defs ex_defs ex2_defs)
  show ?thesis
    using a b c d e f
      startedBy_handler_saves_merge [of ex_stateType ex_id1 ex_step ex_msgA ex_attrs
        ex_persistence ex_initialized ex_delta ex_world ex_workflow
        ex_typeA]
      startedBy_handler_saves_merge [of ex_stateType ex_id1 ex_idleStep ex_msgA ex_attrs
        ex_persistence ex_initialized ex_delta ex_world ex_workflow
        ex_typeA]
    by (simp add: ex_persistence_def inMemoryPersistence_def ex_delta_def ex_stateType_def ex_newState_def)
qed

text \<open>
  Claim C3 as stated fails: the step returns a delta, and the state that reaches the
  in-memory persistence has \<open>$version\<close> 0, not 1.
\<close>

theorem startedBy_version_counterexample:
  "ex_step ex_msgA ex_attrs (createWorkflowState ex_stateType ex_id1) = Inr (Some ex_delta) \<and>
   storedVersions (startedByHandler ex_persistence ex_stateType ex_step ex_id1 ex_msgA
     ex_attrs ex_initialized) = [(''TestState'', [0])]"
  by (simp add: startedByHandler_def createWorkflowState_def ex_persistence_def inMemoryPersistence_def
      saveWorkflowState_def storage_defs assignDelta_def ex2_defs ex4_defs)

subsection \<open>Calling initialize twice\<close>

text \<open>
  Claim C4 does not hold of the code. \<open>initialize\<close> tests for an empty list of workflows
  before it tests the two flags, and a completed \<open>initialize\<close> has emptied the list: a second
  call returns normally and changes nothing. The same happens to a call made while the first
  one awaits the \<open>initialize\<close> hook of the persistence. Only a call that finds the list
  non-empty and a flag set fails.
\<close>

theorem initialize_twice_returns:
  "(fst (initialize pers w) = Inr () \<longrightarrow>
      initialize pers (snd (initialize pers w)) = (Inr (), snd (initialize pers w))) \<and>
   (fst (initializeWorkflows pers w) = Inr (Some ()) \<longrightarrow>
      initialize pers (snd (initializeWorkflows pers w))
        = (Inr (), snd (initializeWorkflows pers w))) \<and>
   (workflowRegistry w \<noteq> [] \<and> (isInitialized w \<or> isInitializing w) \<longrightarrow>
      initialize pers w =
        (Inl (Error (''Attempted to initialize workflow registry ''
               @ ''after it has already been initialized.'')), w))"
proof (intro conjI impI)
  assume ok: "fst (initialize pers w) = Inr ()"
  have "workflowRegistry (snd (initialize pers w)) = []"
    using initialize_ok_cases [OF ok] initializeWorkflows_Some [of pers w "()"]
    by (auto simp: initializePersistence_keeps)
  then show "initialize pers (snd (initialize pers w)) = (Inr (), snd (initialize pers w))"
    by (rule initialize_empty)
next
  assume "fst (initializeWorkflows pers w) = Inr (Some ())"
  then have "workflowRegistry (snd (initializeWorkflows pers w)) = []"
    using initializeWorkflows_Some [of pers w "()"] by simp
  then show "initialize pers (snd (initializeWorkflows pers w))
        = (Inr (), snd (initializeWorkflows pers w))"
    by (rule initialize_empty)
next
  assume "workflowRegistry w \<noteq> [] \<and> (isInitialized w \<or> isInitializing w)"
  then show "initialize pers w =
        (Inl (Error (''Attempted to initialize workflow registry ''
               @ ''after it has already been initialized.'')), w)"
    by (auto simp: initialize_def initializeWorkflows_def)
qed

text \<open>
  The theorem at a registry with one workflow: the first \<open>initialize\<close> completes and sets
  \<open>isInitialized\<close>, the second returns without an error.
\<close>

theorem initialize_twice_returns_witness:
  "workflowRegistry ex_world = [ex_workflow] \<and>
   fst (initialize ex_persistence ex_world) = Inr () \<and>
   isInitialized (snd (initialize ex_persistence ex_world)) \<and>
   fst (initialize ex_persistence (snd (initialize ex_persistence ex_world)))
     = Inr () \<and>
   fst (initializeWorkflows ex_persistence ex_world) = Inr (Some ()) \<and>
   isInitializing (snd (initializeWorkflows ex_persistence ex_world)) \<and>
   fst (initialize ex_persistence (snd (initializeWorkflows ex_persistence ex_world)))
     = Inr () \<and>
   fst (initialize ex_persistence (ex_world\<lparr>isInitializing := True\<rparr>))
     = Inl (Error (''Attempted to initialize workflow registry ''
              @ ''after it has already been initialized.''))"
proof -
  have a: "workflowRegistry ex_world = [ex_workflow]"
    by (simp add: ex_world_def registerWorkflow_def newWorld_def)
  have b: "fst (initialize ex_persistence ex_world) = Inr ()"
    by (simp add: ex_world_def ex_workflow_def workflow_defs registry_defs ex_defs ex2_defs)
  have c: "isInitialized (snd (initialize ex_persistence ex_world))"
    by (simp add: ex_world_def ex_workflow_def workflow_defs registry_defs ex_defs ex2_defs)
  have d: "fst (initializeWorkflows ex_persistence ex_world) = Inr (Some ())"
    by (simp add: ex_world_def ex_workflow_def workflow_defs registry_defs ex_defs ex2_defs)
  have e: "isInitializing (snd (initializeWorkflows ex_persistence ex_world))"
    by (simp add: ex_world_def ex_workflow_def workflow_defs registry_defs ex_defs ex2_defs)
  have f: "workflowRegistry (ex_world\<lparr>isInitializing := True\<rparr>) \<noteq> [] \<and>
    (isInitialized (ex_world\<lparr>isInitializing := True\<rparr>) \<or>
     isInitializing (ex_world\<lparr>isInitializing := True\<rparr>))"
    using a by simp
  show ?thesis
    using a b c d e f
      initialize_twice_returns [of ex_persistence ex_world]
      initialize_twice_returns [of ex_persistence "ex_world\<lparr>isInitializing := True\<rparr>",
        THEN conjunct2, THEN conjunct2]
    by simp
qed

end
